theory Spec2Isabelle
  imports Main "HOL-Library.Word"
begin

unbundle bit_operations_syntax

section \<open>Errors and results\<close>

text \<open>
  The C code of \<^verbatim>\<open>spec.c\<close> has three ways of not returning: a failed \<^verbatim>\<open>assert\<close>
  (the process aborts), \<^verbatim>\<open>exit(1)\<close>, and undefined behaviour.  Each is a value here.
  \<^item> \<open>AssertFailed\<close>: an \<^verbatim>\<open>assert\<close> of the source did not hold.
  \<^item> \<open>Exit1\<close>: the source called \<^verbatim>\<open>exit(1)\<close>.
  \<^item> \<open>BadRead\<close>: the decoder read a byte beyond the bytes that are readable at the
    function pointer (the byte list given to the model).
  \<^item> \<open>BadIndex\<close>: an index into the register array \<^verbatim>\<open>r[Reg_Max]\<close> was out of range
    (undefined behaviour in C).
\<close>

datatype error = AssertFailed | Exit1 | BadRead | BadIndex

fun bindE :: "error + 'a \<Rightarrow> ('a \<Rightarrow> error + 'b) \<Rightarrow> error + 'b" where
  "bindE (Inl e) f = Inl e"
| "bindE (Inr x) f = f x"

type_synonym byte = "8 word"
type_synonym u32 = "32 word"
type_synonym u64 = "64 word"

section \<open>Code storage\<close>

text \<open>
  \<^verbatim>\<open>struct _CStorage { int size; int fullsize; int used; unsigned char* buf; }\<close>.
  The three counters and the argument \<^verbatim>\<open>size\<close> of the two functions are C
  \<^verbatim>\<open>int\<close>s: 32-bit words read as two's complement (\<open>sint\<close>), compared as signed
  numbers (\<open>word_sless\<close>, \<open>word_sle\<close>).  An \<^verbatim>\<open>int\<close> operation that leaves the range
  is undefined in C; the x86-64 code wraps around, and so do \<open>-\<close> and \<open>+\<close> here.
  \<open>buf\<close> is the address returned by \<^verbatim>\<open>mmap\<close>; in \<^verbatim>\<open>buf + used\<close> the \<^verbatim>\<open>int\<close> is
  sign-extended (\<open>scast\<close>).  The field \<^verbatim>\<open>size\<close> is called \<open>cs_size\<close> here.
\<close>

type_synonym i32 = "32 word"

record CStorage =
  cs_size :: i32
  fullsize :: i32
  used :: i32
  buf :: u64

text \<open>
  \<^verbatim>\<open>reserveCodeStorage\<close>: \<^verbatim>\<open>exit(1)\<close> when \<^verbatim>\<open>fullsize - used < size\<close>, else the
  address \<^verbatim>\<open>buf + used\<close>; the storage is not written.
\<close>

definition reserveCodeStorage :: "CStorage \<Rightarrow> i32 \<Rightarrow> error + u64" where
  "reserveCodeStorage cs sz =
     (if word_sless (fullsize cs - used cs) sz then Inl Exit1
      else Inr (buf cs + scast (used cs)))"

text \<open>
  \<^verbatim>\<open>getCodeStorage\<close>: the pointer \<^verbatim>\<open>buf + used\<close> is taken first, then
  \<^verbatim>\<open>assert(fullsize - used >= size)\<close>, then \<^verbatim>\<open>used += size\<close>.
\<close>

definition getCodeStorage :: "CStorage \<Rightarrow> i32 \<Rightarrow> error + (u64 \<times> CStorage)" where
  "getCodeStorage cs sz =
     (let p = buf cs + scast (used cs)
      in if word_sle sz (fullsize cs - used cs)
         then Inr (p, cs\<lparr>used := used cs + sz\<rparr>)
         else Inl AssertFailed)"

section \<open>Registers, operands, instructions\<close>

text \<open>
  \<^verbatim>\<open>enum _Reg\<close> is used arithmetically by the decoder (\<^verbatim>\<open>Reg_AX + reg\<close>,
  \<^verbatim>\<open>r += 8\<close>), so a register is its enumeration value.
\<close>

type_synonym Reg = nat

definition Reg_None :: Reg where "Reg_None = 0"
definition Reg_AX :: Reg where "Reg_AX = 1"
definition Reg_CX :: Reg where "Reg_CX = 2"
definition Reg_DX :: Reg where "Reg_DX = 3"
definition Reg_BX :: Reg where "Reg_BX = 4"
definition Reg_SP :: Reg where "Reg_SP = 5"
definition Reg_BP :: Reg where "Reg_BP = 6"
definition Reg_SI :: Reg where "Reg_SI = 7"
definition Reg_DI :: Reg where "Reg_DI = 8"
definition Reg_8 :: Reg where "Reg_8 = 9"
definition Reg_9 :: Reg where "Reg_9 = 10"
definition Reg_10 :: Reg where "Reg_10 = 11"
definition Reg_11 :: Reg where "Reg_11 = 12"
definition Reg_12 :: Reg where "Reg_12 = 13"
definition Reg_13 :: Reg where "Reg_13 = 14"
definition Reg_14 :: Reg where "Reg_14 = 15"
definition Reg_15 :: Reg where "Reg_15 = 16"
definition Reg_Max :: Reg where "Reg_Max = 17"

lemmas Reg_defs =
  Reg_None_def Reg_AX_def Reg_CX_def Reg_DX_def Reg_BX_def Reg_SP_def Reg_BP_def
  Reg_SI_def Reg_DI_def Reg_8_def Reg_9_def Reg_10_def Reg_11_def Reg_12_def
  Reg_13_def Reg_14_def Reg_15_def Reg_Max_def

datatype InstrType =
  IT_None | IT_Invalid | IT_NOP | IT_PUSH | IT_POP | IT_MOV | IT_ADD | IT_SUB
| IT_CALL | IT_RET

datatype OpType =
  OT_None
| OT_Imm8 | OT_Imm16 | OT_Imm32 | OT_Imm64
| OT_Reg8 | OT_Reg16 | OT_Reg32 | OT_Reg64
| OT_Ind8 | OT_Ind16 | OT_Ind32 | OT_Ind64

text \<open>
  \<^verbatim>\<open>struct _Operand { OpType type; Reg reg; Reg ireg; uint64_t val; int scale; }\<close>.
  The field \<^verbatim>\<open>type\<close> is \<open>otype\<close> here, and \<^verbatim>\<open>type\<close> of an instruction is
  \<open>itype\<close>.
\<close>

record Operand =
  otype :: OpType
  reg :: Reg
  ireg :: Reg
  val :: u64
  scale :: int

record Instr =
  addr :: u64
  itype :: InstrType
  dst :: Operand
  src :: Operand

text \<open>
  \<^verbatim>\<open>struct _Code { int count, capacity; Instr* instr; }\<close>.  The array \<open>instr\<close>
  comes from \<^verbatim>\<open>malloc\<close>: its cells hold whatever they held before, and the
  constructors below write only some fields of a cell.  So the array is a function
  from an index to the cell's contents, given with the buffer.
\<close>

record Code =
  count :: nat
  capacity :: nat
  instr :: "nat \<Rightarrow> Instr"

definition REX_MASK_B :: nat where "REX_MASK_B = 1"
definition REX_MASK_X :: nat where "REX_MASK_X = 2"
definition REX_MASK_R :: nat where "REX_MASK_R = 4"
definition REX_MASK_W :: nat where "REX_MASK_W = 8"

lemmas REX_defs = REX_MASK_B_def REX_MASK_X_def REX_MASK_R_def REX_MASK_W_def

text \<open>\<^verbatim>\<open>opWidth\<close>: the \<^verbatim>\<open>default: assert(0)\<close> is the error.\<close>

fun opWidth :: "OpType \<Rightarrow> error + int" where
  "opWidth OT_Imm8 = Inr 8"
| "opWidth OT_Reg8 = Inr 8"
| "opWidth OT_Ind8 = Inr 8"
| "opWidth OT_Imm16 = Inr 16"
| "opWidth OT_Reg16 = Inr 16"
| "opWidth OT_Ind16 = Inr 16"
| "opWidth OT_Imm32 = Inr 32"
| "opWidth OT_Reg32 = Inr 32"
| "opWidth OT_Ind32 = Inr 32"
| "opWidth OT_Imm64 = Inr 64"
| "opWidth OT_Reg64 = Inr 64"
| "opWidth OT_Ind64 = Inr 64"
| "opWidth OT_None = Inl AssertFailed"

text \<open>
  \<^verbatim>\<open>getRegOp\<close> fills a \<^verbatim>\<open>static Operand o\<close> and returns its address.  Only
  \<^verbatim>\<open>type\<close>, \<^verbatim>\<open>reg\<close> and \<^verbatim>\<open>scale\<close> are ever written; \<^verbatim>\<open>ireg\<close> and
  \<^verbatim>\<open>val\<close> keep the zero of static storage.  The result is the object's contents.
\<close>

definition getRegOp :: "int \<Rightarrow> Reg \<Rightarrow> error + Operand" where
  "getRegOp w r =
     (if w = 32 then
        (if r > Reg_None \<and> r < Reg_Max
         then Inr \<lparr>otype = OT_Reg32, reg = r, ireg = 0, val = 0, scale = 0\<rparr>
         else Inl AssertFailed)
      else if w = 64 then
        (if r > Reg_None \<and> r < Reg_Max
         then Inr \<lparr>otype = OT_Reg64, reg = r, ireg = 0, val = 0, scale = 0\<rparr>
         else Inl AssertFailed)
      else Inl AssertFailed)"

text \<open>
  \<^verbatim>\<open>copyOperand(dst, src)\<close> writes \<^verbatim>\<open>dst->type\<close> and then only the fields that
  belong to the type of \<^verbatim>\<open>src\<close>; every other field of \<^verbatim>\<open>*dst\<close> keeps its old
  contents.  The model takes the old contents of \<^verbatim>\<open>*dst\<close> and returns the new ones.
  \<^verbatim>\<open>1l<<32\<close> is \<open>2 ^ 32\<close>; the comparisons with \<^verbatim>\<open>Reg_None\<close> are those of the
  source.
\<close>

definition copyOperand :: "Operand \<Rightarrow> Operand \<Rightarrow> error + Operand" where
  "copyOperand d s =
     (let d = d\<lparr>otype := otype s\<rparr> in
      if otype s = OT_Imm32 then
        (if val s < 2 ^ 32 then Inr (d\<lparr>val := val s\<rparr>) else Inl AssertFailed)
      else if otype s = OT_Imm64 then Inr (d\<lparr>val := val s\<rparr>)
      else if otype s = OT_Reg32 \<or> otype s = OT_Reg64 then
        (if reg s > Reg_None \<and> reg s < Reg_Max then Inr (d\<lparr>reg := reg s\<rparr>)
         else Inl AssertFailed)
      else if otype s = OT_Ind32 \<or> otype s = OT_Ind64 then
        (if reg s \<ge> Reg_None \<and> reg s < Reg_Max then
           (let d = d\<lparr>reg := reg s, val := val s, scale := scale s\<rparr> in
            if scale s > 0 then
              (if scale s = 1 \<or> scale s = 2 \<or> scale s = 4 \<or> scale s = 8 then
                 (if ireg s \<ge> Reg_None \<and> ireg s < Reg_Max
                  then Inr (d\<lparr>ireg := ireg s\<rparr>)
                  else Inl AssertFailed)
               else Inl AssertFailed)
            else Inr d)
         else Inl AssertFailed)
      else Inl AssertFailed)"

text \<open>
  The C function works through two pointers.  Over a store of operands (an address
  is a natural number), it reads \<^verbatim>\<open>*src\<close> and \<^verbatim>\<open>*dst\<close> and writes \<^verbatim>\<open>*dst\<close>.
\<close>

definition copyOperand_at ::
  "(nat \<Rightarrow> Operand) \<Rightarrow> nat \<Rightarrow> nat \<Rightarrow> error + (nat \<Rightarrow> Operand)" where
  "copyOperand_at h pd ps =
     bindE (copyOperand (h pd) (h ps)) (\<lambda>d. Inr (h(pd := d)))"

text \<open>
  Modelled from the spec: the operand classifiers and the operand equality
  (\<^verbatim>\<open>opIsImm\<close>, \<^verbatim>\<open>opIsReg\<close>, \<^verbatim>\<open>opIsInd\<close>, \<^verbatim>\<open>opIsEqual\<close>) are declared in
  \<^verbatim>\<open>instr.h\<close> and defined in no source file at hand.  The spec: an operand is a
  tagged variant, an immediate with a 64-bit payload, a register with a register
  id, or an indirect with a base register, a displacement, a scale and an index
  register, and "\<^verbatim>\<open>ireg\<close> is meaningful iff \<^verbatim>\<open>scale > 0\<close>"; "equality on operands
  is structural: same tag, same width, same register ids, same displacement, same
  scale".  Tag and width are both in \<open>otype\<close>; the fields compared are those the
  variant has.
\<close>

definition opIsImm :: "Operand \<Rightarrow> bool" where
  "opIsImm opd =
     (otype opd = OT_Imm8 \<or> otype opd = OT_Imm16 \<or> otype opd = OT_Imm32 \<or> otype opd = OT_Imm64)"

definition opIsReg :: "Operand \<Rightarrow> bool" where
  "opIsReg opd =
     (otype opd = OT_Reg8 \<or> otype opd = OT_Reg16 \<or> otype opd = OT_Reg32 \<or> otype opd = OT_Reg64)"

definition opIsInd :: "Operand \<Rightarrow> bool" where
  "opIsInd opd =
     (otype opd = OT_Ind8 \<or> otype opd = OT_Ind16 \<or> otype opd = OT_Ind32 \<or> otype opd = OT_Ind64)"

definition opIsEqual :: "Operand \<Rightarrow> Operand \<Rightarrow> bool" where
  "opIsEqual a b =
     (otype a = otype b \<and>
      (if opIsImm a then val a = val b
       else if opIsReg a then reg a = reg b
       else if opIsInd a then
         reg a = reg b \<and> val a = val b \<and> scale a = scale b
         \<and> (if scale a > 0 then ireg a = ireg b else True)
       else True))"

text \<open>
  \<^verbatim>\<open>nextInstr\<close> returns a pointer to the cell \<^verbatim>\<open>instr[count]\<close>: here the new
  buffer and the index of the cell.
\<close>

definition nextInstr :: "Code \<Rightarrow> u64 \<Rightarrow> error + (Code \<times> nat)" where
  "nextInstr c a =
     (let i = count c in
      if count c < capacity c
      then Inr (c\<lparr>count := count c + 1,
                  instr := (instr c)(i := (instr c i)\<lparr>addr := a\<rparr>)\<rparr>, i)
      else Inl AssertFailed)"

definition addSimple :: "Code \<Rightarrow> u64 \<Rightarrow> InstrType \<Rightarrow> error + Code" where
  "addSimple c a it =
     bindE (nextInstr c a) (\<lambda>(c, i).
       Inr (c\<lparr>instr := (instr c)(i := (instr c i)\<lparr>itype := it\<rparr>)\<rparr>))"

definition addUnaryOp :: "Code \<Rightarrow> u64 \<Rightarrow> InstrType \<Rightarrow> Operand \<Rightarrow> error + Code" where
  "addUnaryOp c a it opd =
     bindE (nextInstr c a) (\<lambda>(c, i).
     bindE (copyOperand (dst (instr c i)) opd) (\<lambda>d.
       Inr (c\<lparr>instr := (instr c)(i := (instr c i)\<lparr>itype := it, dst := d\<rparr>)\<rparr>)))"

definition addBinaryOp ::
  "Code \<Rightarrow> u64 \<Rightarrow> InstrType \<Rightarrow> Operand \<Rightarrow> Operand \<Rightarrow> error + Code" where
  "addBinaryOp c a it opd1 opd2 =
     bindE (nextInstr c a) (\<lambda>(c, i).
     bindE (copyOperand (dst (instr c i)) opd1) (\<lambda>d.
     bindE (copyOperand (src (instr c i)) opd2) (\<lambda>s.
       Inr (c\<lparr>instr := (instr c)(i := (instr c i)\<lparr>itype := it, dst := d, src := s\<rparr>)\<rparr>))))"

section \<open>Decoder\<close>

text \<open>
  The bytes at the function pointer are a list: the bytes that can be read there.
  Reading a byte beyond them is \<open>BadRead\<close>.  \<open>read32\<close> is the load
  \<^verbatim>\<open>*((int32_t*) (p+o))\<close> of a little-endian machine.
\<close>

definition read8 :: "byte list \<Rightarrow> nat \<Rightarrow> error + byte" where
  "read8 fp i = (if i < length fp then Inr (fp ! i) else Inl BadRead)"

definition read32 :: "byte list \<Rightarrow> nat \<Rightarrow> error + u32" where
  "read32 fp i =
     (if i + 3 < length fp
      then Inr (ucast (fp ! i) OR push_bit 8 (ucast (fp ! (i + 1)))
                OR push_bit 16 (ucast (fp ! (i + 2))) OR push_bit 24 (ucast (fp ! (i + 3))))
      else Inl BadRead)"

text \<open>
  \<^verbatim>\<open>parseModRM(p, rex, o1, o2)\<close>: \<open>fp\<close> and \<open>p\<close> give the pointer \<^verbatim>\<open>p\<close> as an
  offset into the bytes; \<open>o1\<close> and \<open>o2\<close> are the old contents of the two operands.
  The result is the number of bytes read and the new contents.  The locals
  \<^verbatim>\<open>mod\<close> and \<^verbatim>\<open>reg\<close> are \<open>md\<close> and \<open>rg\<close>.  As in the source, \<^verbatim>\<open>r\<close> is
  computed from \<^verbatim>\<open>reg\<close> before \<^verbatim>\<open>reg += 8\<close>, and \<^verbatim>\<open>o2->reg\<close> is \<^verbatim>\<open>r\<close>.
  \<open>parseSIB\<close> is the block \<^verbatim>\<open>if (rm == 4) { ... }\<close> and \<open>parseDisp\<close> the
  reading of the displacement, both given the count \<^verbatim>\<open>o\<close> of bytes read so far.
  \<^verbatim>\<open>idx\<close> and \<^verbatim>\<open>base\<close> are uninitialised unless \<^verbatim>\<open>rm == 4\<close>; they are read only
  when \<^verbatim>\<open>scale != 0\<close>, which needs \<^verbatim>\<open>rm == 4\<close>, so any value stands for them (0).
\<close>

definition parseSIB :: "byte list \<Rightarrow> nat \<Rightarrow> nat \<Rightarrow> nat \<Rightarrow> error + (int \<times> nat \<times> nat \<times> nat)" where
  "parseSIB fp p rm n =
     (if rm = 4 then
        bindE (read8 fp (p + n)) (\<lambda>b.
          let sib = unat b in
          Inr (push_bit (drop_bit 6 (sib AND 192)) 1, drop_bit 3 (sib AND 56), sib AND 7, n + 1))
      else Inr (0, 0, 0, n))"

definition parseDisp :: "byte list \<Rightarrow> nat \<Rightarrow> nat \<Rightarrow> nat \<Rightarrow> nat \<Rightarrow> error + (u64 \<times> nat)" where
  "parseDisp fp p md rm n =
     (if md = 1 then
        bindE (read8 fp (p + n)) (\<lambda>b. Inr (scast b, n + 1))
      else if md = 2 \<or> (md = 0 \<and> rm = 5) then
        bindE (read32 fp (p + n)) (\<lambda>w. Inr (scast w, n + 4))
      else Inr (0, n))"

definition parseModRM ::
  "byte list \<Rightarrow> nat \<Rightarrow> nat \<Rightarrow> Operand \<Rightarrow> Operand \<Rightarrow> error + (nat \<times> Operand \<times> Operand)" where
  "parseModRM fp p rex o1 o2 =
     bindE (read8 fp p) (\<lambda>b.
       let hasRex = (rex > 0);
           modrm = unat b;
           md = drop_bit 6 (modrm AND 192);
           rg = drop_bit 3 (modrm AND 56);
           rm = modrm AND 7;
           r = Reg_AX + rg;
           rg = (if hasRex \<and> rex AND REX_MASK_R \<noteq> 0 then rg + 8 else rg);
           reg_ot = (if hasRex \<and> rex AND REX_MASK_W \<noteq> 0 then OT_Reg64 else OT_Reg32);
           o2 = o2\<lparr>otype := reg_ot, reg := r\<rparr>
       in
       if md = 3 then
         (let r = Reg_AX + rm;
              r = (if hasRex \<and> rex AND REX_MASK_B \<noteq> 0 then r + 8 else r)
          in Inr (1, o1\<lparr>otype := reg_ot, reg := r\<rparr>, o2))
       else
         bindE (parseSIB fp p rm 1) (\<lambda>(scl, idx, base, n).
         bindE (parseDisp fp p md rm n) (\<lambda>(disp, n).
           let o1 = o1\<lparr>otype := (if hasRex \<and> rex AND REX_MASK_W \<noteq> 0 then OT_Ind64 else OT_Ind32),
                       scale := scl, val := disp\<rparr>
           in
           if scl = 0 then
             (let r = Reg_AX + rm;
                  r = (if hasRex \<and> rex AND REX_MASK_B \<noteq> 0 then r + 8 else r)
              in Inr (n, o1\<lparr>reg := (if md = 0 \<and> rm = 5 then Reg_None else r)\<rparr>, o2))
           else
             (let r = Reg_AX + idx;
                  r = (if hasRex \<and> rex AND REX_MASK_X \<noteq> 0 then r + 8 else r);
                  o1 = o1\<lparr>ireg := (if idx = 4 then Reg_None else r)\<rparr>;
                  r = Reg_AX + base;
                  r = (if hasRex \<and> rex AND REX_MASK_B \<noteq> 0 then r + 8 else r)
              in Inr (n, o1\<lparr>reg := (if base = 5 \<and> md = 0 then Reg_None else r)\<rparr>, o2)))))"

text \<open>
  The prefix loop of \<^verbatim>\<open>decodeFunc\<close>: while the byte at \<^verbatim>\<open>fp[o]\<close> is in
  \<^verbatim>\<open>0x40..0x4F\<close>, it sets \<^verbatim>\<open>rex = fp[o] & 15\<close> and \<^verbatim>\<open>hasRex = 1\<close> and steps on.
  The result is \<open>(hasRex, rex, o)\<close> at the first other byte.
\<close>

function scanPrefixes :: "byte list \<Rightarrow> nat \<Rightarrow> bool \<Rightarrow> nat \<Rightarrow> error + (bool \<times> nat \<times> nat)" where
  "scanPrefixes fp n hasRex rex =
     (if n < length fp then
        (if fp ! n \<ge> 0x40 \<and> fp ! n \<le> 0x4F
         then scanPrefixes fp (n + 1) True (unat (fp ! n) AND 15)
         else Inr (hasRex, rex, n))
      else Inl BadRead)"
  by pat_completeness auto
termination
  by (relation "measure (\<lambda>(fp, n, hasRex, rex). length fp - n)") auto

declare scanPrefixes.simps [simp del]

text \<open>
  One turn of the outer \<^verbatim>\<open>while\<close> of \<^verbatim>\<open>decodeFunc\<close>, from \<^verbatim>\<open>a = fp + o\<close> to
  \<^verbatim>\<open>hasRex = 0\<close>.  \<open>f\<close> is the address the function pointer holds, \<open>fp\<close> the
  bytes there.  \<open>u1\<close> and \<open>u2\<close> are the contents of the uninitialised locals
  \<^verbatim>\<open>Operand o1, o2\<close>.  \<^verbatim>\<open>rex\<close> is declared outside the loop and keeps its value
  between turns.  The result is the buffer, \<^verbatim>\<open>o\<close>, \<^verbatim>\<open>rex\<close> and \<^verbatim>\<open>retFound\<close>
  at the end of the turn.
\<close>

definition decodeInstr ::
  "byte list \<Rightarrow> u64 \<Rightarrow> bool \<Rightarrow> Operand \<Rightarrow> Operand \<Rightarrow> Code \<Rightarrow> nat \<Rightarrow> nat
     \<Rightarrow> error + (Code \<times> nat \<times> nat \<times> bool)" where
  "decodeInstr fp f stopAtRet u1 u2 c n rex0 =
     (let a = f + of_nat n in
      bindE (scanPrefixes fp n False rex0) (\<lambda>(hasRex, rex, n).
      bindE (read8 fp n) (\<lambda>b.
        if b = 0xc3 then
          bindE (addSimple c a IT_RET) (\<lambda>c. Inr (c, n + 1, rex, stopAtRet))
        else if 0x50 \<le> b \<and> b \<le> 0x57 then
          bindE (getRegOp 64 (Reg_AX + (unat b - 0x50))) (\<lambda>opd.
          bindE (addUnaryOp c a IT_PUSH opd) (\<lambda>c. Inr (c, n + 1, rex, False)))
        else if 0x58 \<le> b \<and> b \<le> 0x5F then
          bindE (getRegOp 64 (Reg_AX + (unat b - 0x58))) (\<lambda>opd.
          bindE (addUnaryOp c a IT_POP opd) (\<lambda>c. Inr (c, n + 1, rex, False)))
        else if b = 0x89 then
          bindE (parseModRM fp (n + 1) (if hasRex then rex else 0) u1 u2) (\<lambda>(k, o1, o2).
          bindE (addBinaryOp c a IT_MOV o1 o2) (\<lambda>c. Inr (c, n + 1 + k, rex, False)))
        else if b = 0x8B then
          bindE (parseModRM fp (n + 1) (if hasRex then rex else 0) u2 u1) (\<lambda>(k, o2, o1).
          bindE (addBinaryOp c a IT_MOV o1 o2) (\<lambda>c. Inr (c, n + 1 + k, rex, False)))
        else if b = 0x01 then
          bindE (parseModRM fp (n + 1) (if hasRex then rex else 0) u1 u2) (\<lambda>(k, o1, o2).
          bindE (addBinaryOp c a IT_ADD o1 o2) (\<lambda>c. Inr (c, n + 1 + k, rex, False)))
        else
          bindE (addSimple c a IT_Invalid) (\<lambda>c. Inr (c, n + 1, rex, False)))))"

text \<open>
  Every successful turn moves \<^verbatim>\<open>o\<close> forward; the outer loop ends for that reason.
\<close>

lemma scanPrefixes_bounds:
  "scanPrefixes fp n h x = Inr (h', x', n') \<Longrightarrow> n \<le> n' \<and> n' < length fp"
proof (induction fp n h x rule: scanPrefixes.induct)
  case (1 fp n hasRex rex)
  from "1.prems" show ?case
    by (subst (asm) scanPrefixes.simps) (auto split: if_splits dest: "1.IH")
qed

lemma bindE_Inr: "bindE m f = Inr y \<Longrightarrow> \<exists>x. m = Inr x \<and> f x = Inr y"
  by (cases m) auto

lemma decodeInstr_advances:
  assumes "decodeInstr fp f sar u1 u2 c n rex = Inr (c', n', rex', rf)"
  shows "n < n'"
proof -
  from assms obtain h x m where s: "scanPrefixes fp n False rex = Inr (h, x, m)"
    unfolding decodeInstr_def Let_def by (auto dest!: bindE_Inr)
  then have nm: "n \<le> m" by (auto dest: scanPrefixes_bounds)
  from assms s have "m < n'"
    unfolding decodeInstr_def Let_def
    by (auto dest!: bindE_Inr split: if_splits)
  with nm show ?thesis by simp
qed

text \<open>
  The outer loop \<^verbatim>\<open>while((o < max) && !retFound)\<close> and \<^verbatim>\<open>decodeFunc\<close>, which
  enters it with \<^verbatim>\<open>o = 0\<close> and \<^verbatim>\<open>retFound = 0\<close>.  \<^verbatim>\<open>rex\<close> is uninitialised
  there and is read only after a prefix has set it; it starts as 0.
\<close>

function decodeLoop ::
  "byte list \<Rightarrow> u64 \<Rightarrow> int \<Rightarrow> bool \<Rightarrow> Operand \<Rightarrow> Operand \<Rightarrow> Code \<Rightarrow> nat \<Rightarrow> nat \<Rightarrow> bool
     \<Rightarrow> error + Code" where
  "decodeLoop fp f mx stopAtRet u1 u2 c n rex retFound =
     (if int n < mx \<and> \<not> retFound then
        (case decodeInstr fp f stopAtRet u1 u2 c n rex of
           Inl e \<Rightarrow> Inl e
         | Inr (c', n', rex', retFound') \<Rightarrow>
             decodeLoop fp f mx stopAtRet u1 u2 c' n' rex' retFound')
      else Inr c)"
  by pat_completeness auto
termination
  by (relation "measure (\<lambda>(fp, f, mx, sar, u1, u2, c, n, rex, rf). nat (mx - int n))")
     (auto dest: decodeInstr_advances)

declare decodeLoop.simps [simp del]

definition decodeFunc ::
  "Code \<Rightarrow> byte list \<Rightarrow> u64 \<Rightarrow> int \<Rightarrow> bool \<Rightarrow> Operand \<Rightarrow> Operand \<Rightarrow> error + Code" where
  "decodeFunc c fp f mx stopAtRet u1 u2 = decodeLoop fp f mx stopAtRet u1 u2 c 0 0 False"

section \<open>Emulator\<close>

text \<open>
  \<^verbatim>\<open>struct _EState { uint64_t r[Reg_Max]; int stack_capacity; unsigned char* stack; }\<close>,
  and the memory of the process, which the emulator reads and writes through the
  addresses it computes ("for memory, use the real memory apart from stack").
  \<open>mem\<close> is that memory, a byte at every address; \<open>stack\<close> is the address of the
  stack buffer.  The record holds the fields of \<^verbatim>\<open>emuState\<close> by name; \<open>mem\<close> is
  the memory outside that object, and \<open>getOpValue\<close>, \<open>setOpValue\<close> and
  \<open>emulateInstr\<close> below are the code for accesses through addresses outside it.
  The accesses at addresses inside \<^verbatim>\<open>emuState\<close> are added in
  \<open>emulateInstrAt\<close>, at the end of this section.  An index into \<^verbatim>\<open>r\<close> beyond
  \<^verbatim>\<open>Reg_Max\<close> is \<open>BadIndex\<close>.
\<close>

record EmuState =
  r :: "nat \<Rightarrow> u64"
  stack_capacity :: int
  stack :: u64
  mem :: "u64 \<Rightarrow> byte"

definition getReg :: "EmuState \<Rightarrow> Reg \<Rightarrow> error + u64" where
  "getReg es i = (if i < Reg_Max then Inr (r es i) else Inl BadIndex)"

definition setReg :: "EmuState \<Rightarrow> Reg \<Rightarrow> u64 \<Rightarrow> error + EmuState" where
  "setReg es i v = (if i < Reg_Max then Inr (es\<lparr>r := (r es)(i := v)\<rparr>) else Inl BadIndex)"

text \<open>
  The loads and stores \<^verbatim>\<open>*(uint32_t*) a\<close> and \<^verbatim>\<open>*(uint64_t*) a\<close> of x86-64:
  little-endian, over the bytes at \<open>a\<close>, \<open>a + 1\<close>, ...
\<close>

definition load32 :: "(u64 \<Rightarrow> byte) \<Rightarrow> u64 \<Rightarrow> u32" where
  "load32 m a =
     ucast (m a) OR push_bit 8 (ucast (m (a + 1))) OR push_bit 16 (ucast (m (a + 2)))
     OR push_bit 24 (ucast (m (a + 3)))"

definition load64 :: "(u64 \<Rightarrow> byte) \<Rightarrow> u64 \<Rightarrow> u64" where
  "load64 m a =
     ucast (m a) OR push_bit 8 (ucast (m (a + 1))) OR push_bit 16 (ucast (m (a + 2)))
     OR push_bit 24 (ucast (m (a + 3))) OR push_bit 32 (ucast (m (a + 4)))
     OR push_bit 40 (ucast (m (a + 5))) OR push_bit 48 (ucast (m (a + 6)))
     OR push_bit 56 (ucast (m (a + 7)))"

definition store32 :: "(u64 \<Rightarrow> byte) \<Rightarrow> u64 \<Rightarrow> u32 \<Rightarrow> (u64 \<Rightarrow> byte)" where
  "store32 m a v =
     m(a := ucast v, a + 1 := ucast (drop_bit 8 v), a + 2 := ucast (drop_bit 16 v),
       a + 3 := ucast (drop_bit 24 v))"

definition store64 :: "(u64 \<Rightarrow> byte) \<Rightarrow> u64 \<Rightarrow> u64 \<Rightarrow> (u64 \<Rightarrow> byte)" where
  "store64 m a v =
     m(a := ucast v, a + 1 := ucast (drop_bit 8 v), a + 2 := ucast (drop_bit 16 v),
       a + 3 := ucast (drop_bit 24 v), a + 4 := ucast (drop_bit 32 v),
       a + 5 := ucast (drop_bit 40 v), a + 6 := ucast (drop_bit 48 v),
       a + 7 := ucast (drop_bit 56 v))"

text \<open>
  \<^verbatim>\<open>getOpAddr\<close>: \<^verbatim>\<open>a = o->val; if (o->reg != Reg_None) a += es->r[o->reg];
  if (o->scale>0) a += o->scale * es->r[o->ireg];\<close> in \<^verbatim>\<open>uint64_t\<close>.
\<close>

definition getOpAddr :: "EmuState \<Rightarrow> Operand \<Rightarrow> error + u64" where
  "getOpAddr es opd =
     (if otype opd = OT_Ind8 \<or> otype opd = OT_Ind16 \<or> otype opd = OT_Ind32
         \<or> otype opd = OT_Ind64 then
        bindE (if reg opd \<noteq> Reg_None
               then bindE (getReg es (reg opd)) (\<lambda>x. Inr (val opd + x))
               else Inr (val opd)) (\<lambda>a.
          if scale opd > 0
          then bindE (getReg es (ireg opd)) (\<lambda>x. Inr (a + word_of_int (scale opd) * x))
          else Inr a)
      else Inl AssertFailed)"

definition getOpValue :: "EmuState \<Rightarrow> Operand \<Rightarrow> error + u64" where
  "getOpValue es opd =
     (if otype opd = OT_Reg32 then
        bindE (getReg es (reg opd)) (\<lambda>x. Inr (ucast (ucast x :: u32)))
      else if otype opd = OT_Reg64 then getReg es (reg opd)
      else if otype opd = OT_Ind32 then
        bindE (getOpAddr es opd) (\<lambda>a. Inr (ucast (load32 (mem es) a)))
      else if otype opd = OT_Ind64 then
        bindE (getOpAddr es opd) (\<lambda>a. Inr (load64 (mem es) a))
      else Inl AssertFailed)"

definition setOpValue :: "EmuState \<Rightarrow> Operand \<Rightarrow> u64 \<Rightarrow> error + EmuState" where
  "setOpValue es opd v =
     (if otype opd = OT_Reg32 then setReg es (reg opd) (ucast (ucast v :: u32))
      else if otype opd = OT_Reg64 then setReg es (reg opd) v
      else if otype opd = OT_Ind32 then
        bindE (getOpAddr es opd) (\<lambda>a. Inr (es\<lparr>mem := store32 (mem es) a (ucast v)\<rparr>))
      else if otype opd = OT_Ind64 then
        bindE (getOpAddr es opd) (\<lambda>a. Inr (es\<lparr>mem := store64 (mem es) a v\<rparr>))
      else Inl AssertFailed)"

text \<open>
  \<^verbatim>\<open>checkStackAddr\<close>: \<^verbatim>\<open>assert((a >= es->stack) && (a < es->stack +
  es->stack_capacity))\<close> for \<^verbatim>\<open>a = es->r[Reg_SP]\<close>.  The end of the buffer is an
  address of the process, so \<^verbatim>\<open>es->stack + es->stack_capacity\<close> does not wrap.
\<close>

definition inStack :: "EmuState \<Rightarrow> u64 \<Rightarrow> bool" where
  "inStack es a = (uint a \<ge> uint (stack es) \<and> uint a < uint (stack es) + stack_capacity es)"

definition checkStackAddr :: "EmuState \<Rightarrow> error + unit" where
  "checkStackAddr es = (if inStack es (r es Reg_SP) then Inr () else Inl AssertFailed)"

text \<open>
  The body of the loop of \<^verbatim>\<open>emulate\<close>, one instruction on the state
  \<^verbatim>\<open>emuState\<close>: the new state and whether \<^verbatim>\<open>foundRet\<close> was set.  The
  \<^verbatim>\<open>default: assert(0)\<close> branches are \<open>AssertFailed\<close>.  \<^verbatim>\<open>PUSH\<close> lowers
  \<^verbatim>\<open>r[Reg_SP]\<close> before \<^verbatim>\<open>checkStackAddr\<close> and before it reads the operand.
  The calls \<^verbatim>\<open>printEState\<close> and \<^verbatim>\<open>printf\<close> at the head of the loop body write to
  the standard output and no state; they are left out.
\<close>

definition emulateInstr :: "EmuState \<Rightarrow> Instr \<Rightarrow> error + (EmuState \<times> bool)" where
  "emulateInstr es i =
     (if itype i = IT_PUSH then
        (if otype (dst i) = OT_Reg32 then
           (let es = es\<lparr>r := (r es)(Reg_SP := r es Reg_SP - 4)\<rparr> in
            bindE (checkStackAddr es) (\<lambda>_.
            bindE (getOpValue es (dst i)) (\<lambda>v.
              Inr (es\<lparr>mem := store32 (mem es) (r es Reg_SP) (ucast v)\<rparr>, False))))
         else if otype (dst i) = OT_Reg64 then
           (let es = es\<lparr>r := (r es)(Reg_SP := r es Reg_SP - 8)\<rparr> in
            bindE (checkStackAddr es) (\<lambda>_.
            bindE (getOpValue es (dst i)) (\<lambda>v.
              Inr (es\<lparr>mem := store64 (mem es) (r es Reg_SP) v\<rparr>, False))))
         else Inl AssertFailed)
      else if itype i = IT_POP then
        (if otype (dst i) = OT_Reg32 then
           bindE (checkStackAddr es) (\<lambda>_.
           bindE (setOpValue es (dst i) (ucast (load32 (mem es) (r es Reg_SP)))) (\<lambda>es.
             Inr (es\<lparr>r := (r es)(Reg_SP := r es Reg_SP + 4)\<rparr>, False)))
         else if otype (dst i) = OT_Reg64 then
           bindE (checkStackAddr es) (\<lambda>_.
           bindE (setOpValue es (dst i) (load64 (mem es) (r es Reg_SP))) (\<lambda>es.
             Inr (es\<lparr>r := (r es)(Reg_SP := r es Reg_SP + 8)\<rparr>, False)))
         else Inl AssertFailed)
      else if itype i = IT_MOV then
        (if otype (src i) = OT_Reg32 \<or> otype (src i) = OT_Ind32 then
           bindE (opWidth (otype (dst i))) (\<lambda>w.
             if w = 32 then
               bindE (getOpValue es (src i)) (\<lambda>v.
                 let v32 = (ucast v :: u32) in
                 bindE (setOpValue es (dst i) (ucast v32)) (\<lambda>es. Inr (es, False)))
             else Inl AssertFailed)
         else if otype (src i) = OT_Reg64 \<or> otype (src i) = OT_Ind64 then
           bindE (opWidth (otype (dst i))) (\<lambda>w.
             if w = 64 then
               bindE (getOpValue es (src i)) (\<lambda>v64.
                 bindE (setOpValue es (dst i) v64) (\<lambda>es. Inr (es, False)))
             else Inl AssertFailed)
         else Inl AssertFailed)
      else if itype i = IT_ADD then
        (if otype (src i) = OT_Reg32 \<or> otype (src i) = OT_Ind32 then
           bindE (opWidth (otype (dst i))) (\<lambda>w.
             if w = 32 then
               bindE (getOpValue es (src i)) (\<lambda>v.
               bindE (getOpValue es (dst i)) (\<lambda>v'.
                 let v32 = (ucast v :: u32) + ucast v' in
                 bindE (setOpValue es (dst i) (ucast v32)) (\<lambda>es. Inr (es, False))))
             else Inl AssertFailed)
         else if otype (src i) = OT_Reg64 \<or> otype (src i) = OT_Ind64 then
           bindE (opWidth (otype (dst i))) (\<lambda>w.
             if w = 64 then
               bindE (getOpValue es (src i)) (\<lambda>v.
               bindE (getOpValue es (dst i)) (\<lambda>v'.
                 let v64 = v + v' in
                 bindE (setOpValue es (dst i) v64) (\<lambda>es. Inr (es, False))))
             else Inl AssertFailed)
         else Inl AssertFailed)
      else if itype i = IT_RET then Inr (es, True)
      else Inl AssertFailed)"

text \<open>
  The loop \<^verbatim>\<open>while((i < c->count) && !foundRet)\<close> of \<^verbatim>\<open>emulate\<close>, and
  \<^verbatim>\<open>emulate\<close>: it first copies the argument registers of its caller (\<open>rsi\<close>,
  \<open>rdx\<close>, \<open>rcx\<close>, \<open>r8\<close>, \<open>r9\<close>, given as arguments here) into the register
  array and sets \<^verbatim>\<open>r[Reg_SP]\<close> to the end of the stack buffer; it returns
  \<^verbatim>\<open>r[Reg_AX]\<close>, here together with the final state.
\<close>

function emulateLoop :: "Code \<Rightarrow> EmuState \<Rightarrow> nat \<Rightarrow> bool \<Rightarrow> error + EmuState" where
  "emulateLoop c es i foundRet =
     (if i < count c \<and> \<not> foundRet then
        (case emulateInstr es (instr c i) of
           Inl e \<Rightarrow> Inl e
         | Inr (es', foundRet') \<Rightarrow> emulateLoop c es' (i + 1) foundRet')
      else Inr es)"
  by pat_completeness auto
termination
  by (relation "measure (\<lambda>(c, es, i, foundRet). count c - i)") auto

declare emulateLoop.simps [simp del]

definition emulate ::
  "Code \<Rightarrow> EmuState \<Rightarrow> u64 \<Rightarrow> u64 \<Rightarrow> u64 \<Rightarrow> u64 \<Rightarrow> u64 \<Rightarrow> error + (u64 \<times> EmuState)" where
  "emulate c es rsi rdx rcx r8 r9 =
     (let es = es\<lparr>r := (r es)(Reg_DI := rsi)\<rparr>;
          es = es\<lparr>r := (r es)(Reg_SI := rdx)\<rparr>;
          es = es\<lparr>r := (r es)(Reg_DX := rcx)\<rparr>;
          es = es\<lparr>r := (r es)(Reg_CX := r8)\<rparr>;
          es = es\<lparr>r := (r es)(Reg_8 := r9)\<rparr>;
          es = es\<lparr>r := (r es)(Reg_SP := stack es + word_of_int (stack_capacity es))\<rparr>
      in bindE (emulateLoop c es 0 False) (\<lambda>es. Inr (r es Reg_AX, es)))"

subsection \<open>The emulator state as an object in memory\<close>

text \<open>
  \<^verbatim>\<open>EmuState emuState;\<close> is a global variable, an object in the memory of the
  process, and \<^verbatim>\<open>getOpValue\<close> and \<^verbatim>\<open>setOpValue\<close> dereference the address
  \<^verbatim>\<open>getOpAddr(es, o)\<close> unchecked: a load or a store at an address inside
  \<^verbatim>\<open>emuState\<close> reads or changes the register array, \<^verbatim>\<open>stack_capacity\<close> or
  \<^verbatim>\<open>stack\<close>.  With \<open>ea\<close> the address of \<^verbatim>\<open>emuState\<close>, the struct is laid out on
  x86-64 (\<^verbatim>\<open>sizeof(EmuState) = 152\<close>) as
  \<^item> \<^verbatim>\<open>r[k]\<close>, for \<open>k < Reg_Max = 17\<close>, in the 8 bytes from \<open>ea + 8 * k\<close>;
  \<^item> \<^verbatim>\<open>stack_capacity\<close>, an \<^verbatim>\<open>int\<close>, in the 4 bytes from \<open>ea + 136\<close>;
  \<^item> 4 bytes of padding from \<open>ea + 140\<close>;
  \<^item> \<^verbatim>\<open>stack\<close> in the 8 bytes from \<open>ea + 144\<close>;

  all little-endian.  \<open>peek\<close> and \<open>poke\<close> read and write the byte at an address:
  a byte of a field of \<^verbatim>\<open>emuState\<close> when the address lies in the object, and the
  byte of \<open>mem\<close> otherwise (\<open>mem\<close> also holds the padding).
\<close>

definition getByte :: "'a::len word \<Rightarrow> nat \<Rightarrow> byte" where
  "getByte w n = ucast (drop_bit (8 * n) w)"

definition setByte :: "'a::len word \<Rightarrow> nat \<Rightarrow> byte \<Rightarrow> 'a word" where
  "setByte w n b = (w AND NOT (push_bit (8 * n) 255)) OR push_bit (8 * n) (ucast b)"

definition peek :: "u64 \<Rightarrow> EmuState \<Rightarrow> u64 \<Rightarrow> byte" where
  "peek ea es x =
     (let k = unat (x - ea) in
      if k < 136 then getByte (r es (k div 8)) (k mod 8)
      else if k < 140 then getByte (word_of_int (stack_capacity es) :: i32) (k - 136)
      else if 144 \<le> k \<and> k < 152 then getByte (stack es) (k - 144)
      else mem es x)"

definition poke :: "u64 \<Rightarrow> EmuState \<Rightarrow> u64 \<Rightarrow> byte \<Rightarrow> EmuState" where
  "poke ea es x b =
     (let k = unat (x - ea) in
      if k < 136 then es\<lparr>r := (r es)(k div 8 := setByte (r es (k div 8)) (k mod 8) b)\<rparr>
      else if k < 140 then
        es\<lparr>stack_capacity :=
             sint (setByte (word_of_int (stack_capacity es) :: i32) (k - 136) b)\<rparr>
      else if 144 \<le> k \<and> k < 152 then es\<lparr>stack := setByte (stack es) (k - 144) b\<rparr>
      else es\<lparr>mem := (mem es)(x := b)\<rparr>)"

text \<open>
  The loads and stores \<^verbatim>\<open>*(uint32_t*) a\<close> and \<^verbatim>\<open>*(uint64_t*) a\<close> over these
  bytes.
\<close>

definition load32At :: "u64 \<Rightarrow> EmuState \<Rightarrow> u64 \<Rightarrow> u32" where
  "load32At ea es a =
     ucast (peek ea es a) OR push_bit 8 (ucast (peek ea es (a + 1)))
     OR push_bit 16 (ucast (peek ea es (a + 2))) OR push_bit 24 (ucast (peek ea es (a + 3)))"

definition load64At :: "u64 \<Rightarrow> EmuState \<Rightarrow> u64 \<Rightarrow> u64" where
  "load64At ea es a =
     ucast (peek ea es a) OR push_bit 8 (ucast (peek ea es (a + 1)))
     OR push_bit 16 (ucast (peek ea es (a + 2))) OR push_bit 24 (ucast (peek ea es (a + 3)))
     OR push_bit 32 (ucast (peek ea es (a + 4))) OR push_bit 40 (ucast (peek ea es (a + 5)))
     OR push_bit 48 (ucast (peek ea es (a + 6))) OR push_bit 56 (ucast (peek ea es (a + 7)))"

definition store32At :: "u64 \<Rightarrow> EmuState \<Rightarrow> u64 \<Rightarrow> u32 \<Rightarrow> EmuState" where
  "store32At ea es a v =
     (let es = poke ea es a (ucast v);
          es = poke ea es (a + 1) (ucast (drop_bit 8 v));
          es = poke ea es (a + 2) (ucast (drop_bit 16 v))
      in poke ea es (a + 3) (ucast (drop_bit 24 v)))"

definition store64At :: "u64 \<Rightarrow> EmuState \<Rightarrow> u64 \<Rightarrow> u64 \<Rightarrow> EmuState" where
  "store64At ea es a v =
     (let es = poke ea es a (ucast v);
          es = poke ea es (a + 1) (ucast (drop_bit 8 v));
          es = poke ea es (a + 2) (ucast (drop_bit 16 v));
          es = poke ea es (a + 3) (ucast (drop_bit 24 v));
          es = poke ea es (a + 4) (ucast (drop_bit 32 v));
          es = poke ea es (a + 5) (ucast (drop_bit 40 v));
          es = poke ea es (a + 6) (ucast (drop_bit 48 v))
      in poke ea es (a + 7) (ucast (drop_bit 56 v)))"

text \<open>
  \<^verbatim>\<open>getOpValue\<close>, \<^verbatim>\<open>setOpValue\<close> and the body of the loop of \<^verbatim>\<open>emulate\<close> with
  \<^verbatim>\<open>emuState\<close> at the address \<open>ea\<close>: as \<open>getOpValue\<close>, \<open>setOpValue\<close> and
  \<open>emulateInstr\<close> above, every load and store through a computed address now
  going through \<open>peek\<close> and \<open>poke\<close>.  The accesses \<^verbatim>\<open>es->r[...]\<close> by name are
  those of the record.  The instruction is read before the one store of the
  step, so the step has it as a value.
\<close>

definition getOpValueAt :: "u64 \<Rightarrow> EmuState \<Rightarrow> Operand \<Rightarrow> error + u64" where
  "getOpValueAt ea es opd =
     (if otype opd = OT_Reg32 then
        bindE (getReg es (reg opd)) (\<lambda>x. Inr (ucast (ucast x :: u32)))
      else if otype opd = OT_Reg64 then getReg es (reg opd)
      else if otype opd = OT_Ind32 then
        bindE (getOpAddr es opd) (\<lambda>a. Inr (ucast (load32At ea es a)))
      else if otype opd = OT_Ind64 then
        bindE (getOpAddr es opd) (\<lambda>a. Inr (load64At ea es a))
      else Inl AssertFailed)"

definition setOpValueAt :: "u64 \<Rightarrow> EmuState \<Rightarrow> Operand \<Rightarrow> u64 \<Rightarrow> error + EmuState" where
  "setOpValueAt ea es opd v =
     (if otype opd = OT_Reg32 then setReg es (reg opd) (ucast (ucast v :: u32))
      else if otype opd = OT_Reg64 then setReg es (reg opd) v
      else if otype opd = OT_Ind32 then
        bindE (getOpAddr es opd) (\<lambda>a. Inr (store32At ea es a (ucast v)))
      else if otype opd = OT_Ind64 then
        bindE (getOpAddr es opd) (\<lambda>a. Inr (store64At ea es a v))
      else Inl AssertFailed)"

definition emulateInstrAt :: "u64 \<Rightarrow> EmuState \<Rightarrow> Instr \<Rightarrow> error + (EmuState \<times> bool)" where
  "emulateInstrAt ea es i =
     (if itype i = IT_PUSH then
        (if otype (dst i) = OT_Reg32 then
           (let es = es\<lparr>r := (r es)(Reg_SP := r es Reg_SP - 4)\<rparr> in
            bindE (checkStackAddr es) (\<lambda>_.
            bindE (getOpValueAt ea es (dst i)) (\<lambda>v.
              Inr (store32At ea es (r es Reg_SP) (ucast v), False))))
         else if otype (dst i) = OT_Reg64 then
           (let es = es\<lparr>r := (r es)(Reg_SP := r es Reg_SP - 8)\<rparr> in
            bindE (checkStackAddr es) (\<lambda>_.
            bindE (getOpValueAt ea es (dst i)) (\<lambda>v.
              Inr (store64At ea es (r es Reg_SP) v, False))))
         else Inl AssertFailed)
      else if itype i = IT_POP then
        (if otype (dst i) = OT_Reg32 then
           bindE (checkStackAddr es) (\<lambda>_.
           bindE (setOpValueAt ea es (dst i) (ucast (load32At ea es (r es Reg_SP)))) (\<lambda>es.
             Inr (es\<lparr>r := (r es)(Reg_SP := r es Reg_SP + 4)\<rparr>, False)))
         else if otype (dst i) = OT_Reg64 then
           bindE (checkStackAddr es) (\<lambda>_.
           bindE (setOpValueAt ea es (dst i) (load64At ea es (r es Reg_SP))) (\<lambda>es.
             Inr (es\<lparr>r := (r es)(Reg_SP := r es Reg_SP + 8)\<rparr>, False)))
         else Inl AssertFailed)
      else if itype i = IT_MOV then
        (if otype (src i) = OT_Reg32 \<or> otype (src i) = OT_Ind32 then
           bindE (opWidth (otype (dst i))) (\<lambda>w.
             if w = 32 then
               bindE (getOpValueAt ea es (src i)) (\<lambda>v.
                 let v32 = (ucast v :: u32) in
                 bindE (setOpValueAt ea es (dst i) (ucast v32)) (\<lambda>es. Inr (es, False)))
             else Inl AssertFailed)
         else if otype (src i) = OT_Reg64 \<or> otype (src i) = OT_Ind64 then
           bindE (opWidth (otype (dst i))) (\<lambda>w.
             if w = 64 then
               bindE (getOpValueAt ea es (src i)) (\<lambda>v64.
                 bindE (setOpValueAt ea es (dst i) v64) (\<lambda>es. Inr (es, False)))
             else Inl AssertFailed)
         else Inl AssertFailed)
      else if itype i = IT_ADD then
        (if otype (src i) = OT_Reg32 \<or> otype (src i) = OT_Ind32 then
           bindE (opWidth (otype (dst i))) (\<lambda>w.
             if w = 32 then
               bindE (getOpValueAt ea es (src i)) (\<lambda>v.
               bindE (getOpValueAt ea es (dst i)) (\<lambda>v'.
                 let v32 = (ucast v :: u32) + ucast v' in
                 bindE (setOpValueAt ea es (dst i) (ucast v32)) (\<lambda>es. Inr (es, False))))
             else Inl AssertFailed)
         else if otype (src i) = OT_Reg64 \<or> otype (src i) = OT_Ind64 then
           bindE (opWidth (otype (dst i))) (\<lambda>w.
             if w = 64 then
               bindE (getOpValueAt ea es (src i)) (\<lambda>v.
               bindE (getOpValueAt ea es (dst i)) (\<lambda>v'.
                 let v64 = v + v' in
                 bindE (setOpValueAt ea es (dst i) v64) (\<lambda>es. Inr (es, False))))
             else Inl AssertFailed)
         else Inl AssertFailed)
      else if itype i = IT_RET then Inr (es, True)
      else Inl AssertFailed)"

text \<open>
  The 4 or the 8 bytes at \<open>a\<close> lie outside \<^verbatim>\<open>emuState\<close>; and the bytes that an
  instruction stores to do: those at the new \<^verbatim>\<open>r[Reg_SP]\<close> for a PUSH, those at
  the address of an indirect destination for a MOV or an ADD.  (A POP stores to
  a register by name.)
\<close>

definition apart32 :: "u64 \<Rightarrow> u64 \<Rightarrow> bool" where
  "apart32 ea a =
     (152 \<le> unat (a - ea) \<and> 152 \<le> unat (a + 1 - ea) \<and> 152 \<le> unat (a + 2 - ea)
      \<and> 152 \<le> unat (a + 3 - ea))"

definition apart64 :: "u64 \<Rightarrow> u64 \<Rightarrow> bool" where
  "apart64 ea a =
     (152 \<le> unat (a - ea) \<and> 152 \<le> unat (a + 1 - ea) \<and> 152 \<le> unat (a + 2 - ea)
      \<and> 152 \<le> unat (a + 3 - ea) \<and> 152 \<le> unat (a + 4 - ea) \<and> 152 \<le> unat (a + 5 - ea)
      \<and> 152 \<le> unat (a + 6 - ea) \<and> 152 \<le> unat (a + 7 - ea))"

definition storeApart :: "u64 \<Rightarrow> EmuState \<Rightarrow> Instr \<Rightarrow> bool" where
  "storeApart ea es i =
     (if itype i = IT_PUSH then
        (if otype (dst i) = OT_Reg32 then apart32 ea (r es Reg_SP - 4)
         else apart64 ea (r es Reg_SP - 8))
      else if itype i = IT_MOV \<or> itype i = IT_ADD then
        (if otype (dst i) = OT_Ind32 then
           (case getOpAddr es (dst i) of Inr a \<Rightarrow> apart32 ea a | Inl e \<Rightarrow> True)
         else if otype (dst i) = OT_Ind64 then
           (case getOpAddr es (dst i) of Inr a \<Rightarrow> apart64 ea a | Inl e \<Rightarrow> True)
         else True)
      else True)"

section \<open>Code storage: reserve and commit\<close>

text \<open>
  A difference or a sum of two \<^verbatim>\<open>int\<close>s that stays in the range of an \<^verbatim>\<open>int\<close> is
  the difference or the sum of the numbers.
\<close>

lemma sint32_sub:
  assumes "- (2 ^ 31) \<le> sint a - sint b" and "sint a - sint b < 2 ^ 31"
  shows "sint (a - b :: i32) = sint a - sint b"
  using assms by (simp add: sint_word_ariths signed_take_bit_int_eq_self)

lemma sint32_add:
  assumes "- (2 ^ 31) \<le> sint a + sint b" and "sint a + sint b < 2 ^ 31"
  shows "sint (a + b :: i32) = sint a + sint b"
  using assms by (simp add: sint_word_ariths signed_take_bit_int_eq_self)

lemma sint32_range: "- (2 ^ 31) \<le> sint (a :: i32) \<and> sint a < 2 ^ 31"
  using sint_ge [of a] sint_lt [of a] by simp

text \<open>
  Claim C7, as amended.  Let \<^verbatim>\<open>fullsize - used\<close> not overflow, as is the case
  whenever \<open>0 \<le> used \<le> fullsize\<close>.  Then \<^verbatim>\<open>reserveCodeStorage\<close> (reserve)
  returns the address \<open>buf + used\<close> and fails exactly when
  \<open>used + size > fullsize\<close>; it has no access to write the storage (the model
  returns no storage).  \<^verbatim>\<open>getCodeStorage\<close> (commit) fails under the same
  condition and otherwise returns the same address \<open>buf + used\<close> and sets
  \<open>used\<close> to \<^verbatim>\<open>used + size\<close>, all other fields unchanged; that is the number
  \<open>used + size\<close> unless the sum falls below the range of an \<^verbatim>\<open>int\<close>.
  For a size that is not negative, a successful commit keeps
  \<open>0 \<le> used \<le> fullsize\<close>.

  The claim states the last part for every successful operation; it fails for a
  negative size, which passes the capacity check of commit.  And without the
  condition on \<^verbatim>\<open>fullsize - used\<close> reserve can fail with room left.
\<close>

theorem codeStorage_reserve_commit:
  "(- (2 ^ 31) \<le> sint (fullsize cs) - sint (used cs) \<and> sint (fullsize cs) - sint (used cs) < 2 ^ 31
      \<longrightarrow> reserveCodeStorage cs sz =
            (if sint (used cs) + sint sz > sint (fullsize cs) then Inl Exit1
             else Inr (buf cs + scast (used cs)))
          \<and> getCodeStorage cs sz =
            (if sint (used cs) + sint sz > sint (fullsize cs) then Inl AssertFailed
             else Inr (buf cs + scast (used cs), cs\<lparr>used := used cs + sz\<rparr>))
          \<and> (- (2 ^ 31) \<le> sint (used cs) + sint sz \<and> sint (used cs) + sint sz \<le> sint (fullsize cs)
               \<longrightarrow> sint (used cs + sz) = sint (used cs) + sint sz))
   \<and> (0 \<le> sint sz \<and> 0 \<le> sint (used cs) \<and> sint (used cs) \<le> sint (fullsize cs)
        \<and> getCodeStorage cs sz = Inr (p, cs')
        \<longrightarrow> 0 \<le> sint (used cs') \<and> sint (used cs') \<le> sint (fullsize cs'))"
proof (intro conjI impI)
  assume r: "- (2 ^ 31) \<le> sint (fullsize cs) - sint (used cs)
             \<and> sint (fullsize cs) - sint (used cs) < 2 ^ 31"
  then have d: "sint (fullsize cs - used cs) = sint (fullsize cs) - sint (used cs)"
    by (simp add: sint32_sub)
  show "reserveCodeStorage cs sz =
            (if sint (used cs) + sint sz > sint (fullsize cs) then Inl Exit1
             else Inr (buf cs + scast (used cs)))"
    by (auto simp: reserveCodeStorage_def word_sless_alt d)
  show "getCodeStorage cs sz =
            (if sint (used cs) + sint sz > sint (fullsize cs) then Inl AssertFailed
             else Inr (buf cs + scast (used cs), cs\<lparr>used := used cs + sz\<rparr>))"
    by (auto simp: getCodeStorage_def Let_def word_sle_eq d)
  assume "- (2 ^ 31) \<le> sint (used cs) + sint sz \<and> sint (used cs) + sint sz \<le> sint (fullsize cs)"
  with sint32_range [of "fullsize cs"]
  show "sint (used cs + sz) = sint (used cs) + sint sz"
    by (intro sint32_add) simp_all
next
  assume a: "0 \<le> sint sz \<and> 0 \<le> sint (used cs) \<and> sint (used cs) \<le> sint (fullsize cs)
        \<and> getCodeStorage cs sz = Inr (p, cs')"
  with sint32_range [of "fullsize cs"]
  have d: "sint (fullsize cs - used cs) = sint (fullsize cs) - sint (used cs)"
    by (intro sint32_sub) simp_all
  from a have le: "sint sz \<le> sint (fullsize cs) - sint (used cs)" and cs': "cs' = cs\<lparr>used := used cs + sz\<rparr>"
    by (auto simp: getCodeStorage_def Let_def word_sle_eq d split: if_splits)
  from a le sint32_range [of "fullsize cs"]
  have "sint (used cs + sz) = sint (used cs) + sint sz"
    by (intro sint32_add) simp_all
  with a le cs' show "0 \<le> sint (used cs')" and "sint (used cs') \<le> sint (fullsize cs')"
    by simp_all
qed

theorem codeStorage_reserve_commit_witness:
  "reserveCodeStorage \<lparr>cs_size = 4096, fullsize = 4096, used = 10, buf = 0x1000\<rparr> 50 = Inr 0x100A
   \<and> getCodeStorage \<lparr>cs_size = 4096, fullsize = 4096, used = 10, buf = 0x1000\<rparr> 50
       = Inr (0x100A, \<lparr>cs_size = 4096, fullsize = 4096, used = 60, buf = 0x1000\<rparr>)
   \<and> reserveCodeStorage \<lparr>cs_size = 4096, fullsize = 4096, used = 4090, buf = 0x1000\<rparr> 50 = Inl Exit1
   \<and> sint (60 :: i32) = sint (10 :: i32) + sint (50 :: i32)
   \<and> 0 \<le> sint (used \<lparr>cs_size = 4096, fullsize = 4096, used = 60, buf = 0x1000\<rparr>)
   \<and> sint (used \<lparr>cs_size = 4096, fullsize = 4096, used = 60, buf = 0x1000\<rparr>)
        \<le> sint (fullsize \<lparr>cs_size = 4096, fullsize = 4096, used = 60, buf = 0x1000\<rparr>)"
  using codeStorage_reserve_commit
    [of "\<lparr>cs_size = 4096, fullsize = 4096, used = 10, buf = 0x1000\<rparr>" 50
        "0x100A" "\<lparr>cs_size = 4096, fullsize = 4096, used = 60, buf = 0x1000\<rparr>"]
    codeStorage_reserve_commit
    [of "\<lparr>cs_size = 4096, fullsize = 4096, used = 4090, buf = 0x1000\<rparr>" 50]
  by simp

text \<open>
  Claim C7 as stated fails: with \<open>used = 0\<close>, \<^verbatim>\<open>getCodeStorage(cs, -1)\<close> passes
  \<^verbatim>\<open>assert(fullsize - used >= size)\<close> and leaves \<open>used = -1\<close>.  And with
  \<open>used = INT_MIN\<close> (such a \<open>used\<close> can come from commits of negative sizes)
  \<^verbatim>\<open>reserveCodeStorage(cs, 0)\<close> exits although \<open>used + size \<le> fullsize\<close>:
  \<^verbatim>\<open>fullsize - used\<close> has wrapped to a negative number.
\<close>

theorem getCodeStorage_negative_size_counterexample:
  "getCodeStorage \<lparr>cs_size = 4096, fullsize = 4096, used = 0, buf = 0x1000\<rparr> (- 1)
     = Inr (0x1000, \<lparr>cs_size = 4096, fullsize = 4096, used = - 1, buf = 0x1000\<rparr>)
   \<and> sint (used \<lparr>cs_size = 4096, fullsize = 4096, used = - 1, buf = 0x1000\<rparr>) = - 1
   \<and> reserveCodeStorage \<lparr>cs_size = 4096, fullsize = 4096, used = - 0x80000000, buf = 0x1000\<rparr> 0
     = Inl Exit1
   \<and> sint (- 0x80000000 :: i32) + sint (0 :: i32) \<le> sint (4096 :: i32)"
  by (simp add: getCodeStorage_def reserveCodeStorage_def word_sle_eq word_sless_alt)

section \<open>Operand copy\<close>

lemma copyOperand_fields:
  assumes "copyOperand d s = Inr d'"
  shows "otype d' = otype s"
    and "otype s = OT_Imm32 \<or> otype s = OT_Imm64 \<or> otype s = OT_Reg32 \<or> otype s = OT_Reg64
         \<or> otype s = OT_Ind32 \<or> otype s = OT_Ind64"
    and "otype s = OT_Imm32 \<or> otype s = OT_Imm64 \<Longrightarrow> val d' = val s"
    and "otype s = OT_Reg32 \<or> otype s = OT_Reg64 \<Longrightarrow> reg d' = reg s"
    and "otype s = OT_Ind32 \<or> otype s = OT_Ind64 \<Longrightarrow>
           reg d' = reg s \<and> val d' = val s \<and> scale d' = scale s
           \<and> (scale s > 0 \<longrightarrow> ireg d' = ireg s)"
  using assms
  by (cases "otype s"; auto simp: copyOperand_def Let_def split: if_splits)+

text \<open>The fields that the type of the source does not have keep what \<^verbatim>\<open>*dst\<close> held.\<close>

lemma copyOperand_keeps_other_fields:
  assumes "copyOperand d s = Inr d'"
  shows "(otype s = OT_Imm32 \<or> otype s = OT_Imm64 \<longrightarrow>
            reg d' = reg d \<and> ireg d' = ireg d \<and> scale d' = scale d)
       \<and> (otype s = OT_Reg32 \<or> otype s = OT_Reg64 \<longrightarrow>
            val d' = val d \<and> ireg d' = ireg d \<and> scale d' = scale d)
       \<and> ((otype s = OT_Ind32 \<or> otype s = OT_Ind64) \<and> \<not> scale s > 0 \<longrightarrow> ireg d' = ireg d)"
  using assms
  by (cases "otype s"; auto simp: copyOperand_def Let_def split: if_splits)

lemma copyOperand_equal:
  assumes "copyOperand d s = Inr d'"
  shows "opIsEqual d' s"
  using copyOperand_fields [OF assms]
  unfolding opIsEqual_def opIsImm_def opIsReg_def opIsInd_def
  by (elim disjE) simp_all

lemma copyOperand_Ind:
  assumes "copyOperand d s = Inr d'" and "otype s = OT_Ind32 \<or> otype s = OT_Ind64"
  shows "otype d' = otype s \<and> reg d' = reg s \<and> val d' = val s \<and> scale d' = scale s
         \<and> (scale s > 0 \<longrightarrow> scale s \<in> {1, 2, 4, 8} \<and> ireg d' = ireg s \<and> ireg s < Reg_Max)
         \<and> (\<not> scale s > 0 \<longrightarrow> ireg d' = ireg d)"
  using assms unfolding copyOperand_def Let_def
  by (auto split: if_splits)

text \<open>
  Claim C6.  Whenever \<^verbatim>\<open>copyOperand(dst, src)\<close> returns (none of its assertions
  fails), the operand at \<^verbatim>\<open>dst\<close> equals the operand that was at \<^verbatim>\<open>src\<close> under
  the operand equality; and when \<^verbatim>\<open>dst\<close> and \<^verbatim>\<open>src\<close> are two objects, the copy
  leaves \<^verbatim>\<open>*src\<close> as it was and so does every later write to \<^verbatim>\<open>*dst\<close>.
  The equality is that of the variant: the fields that the type of the operand
  does not have are not copied (\<open>copyOperand_keeps_other_fields\<close>) and not compared.
\<close>

theorem copyOperand_fidelity:
  assumes "copyOperand_at h pd ps = Inr h'"
  shows "opIsEqual (h' pd) (h ps)
         \<and> (pd \<noteq> ps \<longrightarrow> h' ps = h ps \<and> (\<forall>x. (h'(pd := x)) ps = h ps))"
proof -
  from assms obtain d' where d: "copyOperand (h pd) (h ps) = Inr d'" and h': "h' = h(pd := d')"
    unfolding copyOperand_at_def by (auto dest!: bindE_Inr)
  from copyOperand_equal [OF d] h' show ?thesis by simp
qed

theorem copyOperand_fidelity_witness:
  "copyOperand_at
     ((\<lambda>_. \<lparr>otype = OT_None, reg = 0, ireg = 0, val = 0, scale = 0\<rparr>)
        (1 := \<lparr>otype = OT_Ind64, reg = Reg_BP, ireg = Reg_CX, val = 0xFFFFFFFFFFFFFFF8, scale = 4\<rparr>)) 0 1
   = Inr ((\<lambda>_. \<lparr>otype = OT_None, reg = 0, ireg = 0, val = 0, scale = 0\<rparr>)
        (1 := \<lparr>otype = OT_Ind64, reg = Reg_BP, ireg = Reg_CX, val = 0xFFFFFFFFFFFFFFF8, scale = 4\<rparr>,
         0 := \<lparr>otype = OT_Ind64, reg = Reg_BP, ireg = Reg_CX, val = 0xFFFFFFFFFFFFFFF8, scale = 4\<rparr>))
   \<and> opIsEqual \<lparr>otype = OT_Ind64, reg = Reg_BP, ireg = Reg_CX, val = 0xFFFFFFFFFFFFFFF8, scale = 4\<rparr>
        \<lparr>otype = OT_Ind64, reg = Reg_BP, ireg = Reg_CX, val = 0xFFFFFFFFFFFFFFF8, scale = 4\<rparr>
   \<and> (0::nat) \<noteq> 1"
  using copyOperand_fidelity
    [of "(\<lambda>_. \<lparr>otype = OT_None, reg = 0, ireg = 0, val = 0, scale = 0\<rparr>)
        (1 := \<lparr>otype = OT_Ind64, reg = Reg_BP, ireg = Reg_CX, val = 0xFFFFFFFFFFFFFFF8, scale = 4\<rparr>)" 0 1
      "(\<lambda>_. \<lparr>otype = OT_None, reg = 0, ireg = 0, val = 0, scale = 0\<rparr>)
        (1 := \<lparr>otype = OT_Ind64, reg = Reg_BP, ireg = Reg_CX, val = 0xFFFFFFFFFFFFFFF8, scale = 4\<rparr>,
         0 := \<lparr>otype = OT_Ind64, reg = Reg_BP, ireg = Reg_CX, val = 0xFFFFFFFFFFFFFFF8, scale = 4\<rparr>)"]
  by (simp add: copyOperand_at_def copyOperand_def Reg_defs)

section \<open>ModR/M parsing\<close>

lemmas parse_defs = parseModRM_def parseSIB_def parseDisp_def read8_def read32_def REX_defs

lemmas add_defs =
  addSimple_def addUnaryOp_def addBinaryOp_def nextInstr_def copyOperand_def getRegOp_def

lemma nat_and_le2: "(x::nat) AND y \<le> y"
  by (metis AND_upper2 of_nat_0_le_iff of_nat_and_eq of_nat_le_iff)

lemma field3_le: "drop_bit 3 ((x::nat) AND 56) \<le> 7"
  using nat_and_le2 [of x 56] by (simp add: drop_bit_eq_div)

lemma field6_le: "drop_bit 6 ((x::nat) AND 192) \<le> 3"
  using nat_and_le2 [of x 192] by (simp add: drop_bit_eq_div)

lemma field0_le: "(x::nat) AND 7 \<le> 7"
  by (rule nat_and_le2)

lemma scale_cases: "n \<le> 3 \<Longrightarrow> push_bit n (1::int) \<in> {1, 2, 4, 8}"
proof -
  assume "n \<le> 3"
  then consider "n = 0" | "n = 1" | "n = 2" | "n = 3" by linarith
  then show ?thesis by cases simp_all
qed

lemma parseSIB_Inr:
  assumes "parseSIB fp p rm n = Inr (scl, idx, base, n')"
  shows "(rm \<noteq> 4 \<longrightarrow> scl = 0 \<and> n' = n)
       \<and> (rm = 4 \<longrightarrow> p + n < length fp \<and> scl \<in> {1, 2, 4, 8} \<and> n' = n + 1
             \<and> idx = drop_bit 3 (unat (fp ! (p + n)) AND 56) \<and> idx \<le> 7
             \<and> base = unat (fp ! (p + n)) AND 7 \<and> base \<le> 7)"
  using assms field3_le [of "unat (fp ! (p + n))"] field0_le [of "unat (fp ! (p + n))"]
    scale_cases [OF field6_le, of "unat (fp ! (p + n))"]
  unfolding parseSIB_def Let_def
  by (auto dest!: bindE_Inr simp: read8_def  split: if_splits)

text \<open>The two exits of \<^verbatim>\<open>parseModRM\<close>: both operands registers, or a memory operand.\<close>

lemma parseModRM_reg_form:
  assumes "read8 fp p = Inr b" and "drop_bit 6 (unat b AND 192) = 3"
  shows "parseModRM fp p rex u1 u2 =
     Inr (1,
       u1\<lparr>otype := (if rex > 0 \<and> rex AND REX_MASK_W \<noteq> 0 then OT_Reg64 else OT_Reg32),
          reg := (if rex > 0 \<and> rex AND REX_MASK_B \<noteq> 0 then Reg_AX + (unat b AND 7) + 8
                  else Reg_AX + (unat b AND 7))\<rparr>,
       u2\<lparr>otype := (if rex > 0 \<and> rex AND REX_MASK_W \<noteq> 0 then OT_Reg64 else OT_Reg32),
          reg := Reg_AX + drop_bit 3 (unat b AND 56)\<rparr>)"
  using assms by (simp add: parseModRM_def Let_def)

lemma parseModRM_mem_form:
  assumes "read8 fp p = Inr b" and "drop_bit 6 (unat b AND 192) \<noteq> 3"
  shows "parseModRM fp p rex u1 u2 =
     bindE (parseSIB fp p (unat b AND 7) 1) (\<lambda>(scl, idx, base, n).
     bindE (parseDisp fp p (drop_bit 6 (unat b AND 192)) (unat b AND 7) n) (\<lambda>(disp, n).
       Inr (n,
         u1\<lparr>otype := (if rex > 0 \<and> rex AND REX_MASK_W \<noteq> 0 then OT_Ind64 else OT_Ind32),
            scale := scl, val := disp,
            ireg := (if scl = 0 then ireg u1 else if idx = 4 then Reg_None
                     else if rex > 0 \<and> rex AND REX_MASK_X \<noteq> 0 then Reg_AX + idx + 8
                     else Reg_AX + idx),
            reg := (if scl = 0 then
                      (if drop_bit 6 (unat b AND 192) = 0 \<and> unat b AND 7 = 5 then Reg_None
                       else if rex > 0 \<and> rex AND REX_MASK_B \<noteq> 0 then Reg_AX + (unat b AND 7) + 8
                       else Reg_AX + (unat b AND 7))
                    else
                      (if base = 5 \<and> drop_bit 6 (unat b AND 192) = 0 then Reg_None
                       else if rex > 0 \<and> rex AND REX_MASK_B \<noteq> 0 then Reg_AX + base + 8
                       else Reg_AX + base))\<rparr>,
         u2\<lparr>otype := (if rex > 0 \<and> rex AND REX_MASK_W \<noteq> 0 then OT_Reg64 else OT_Reg32),
            reg := Reg_AX + drop_bit 3 (unat b AND 56)\<rparr>)))"
proof (cases "parseSIB fp p (unat b AND 7) 1")
  case (Inl e)
  with assms show ?thesis by (simp add: parseModRM_def Let_def)
next
  case (Inr x)
  then obtain scl idx base n where x: "parseSIB fp p (unat b AND 7) 1 = Inr (scl, idx, base, n)"
    by (cases x) auto
  show ?thesis
  proof (cases "parseDisp fp p (drop_bit 6 (unat b AND 192)) (unat b AND 7) n")
    case (Inl e)
    with assms x show ?thesis by (simp add: parseModRM_def Let_def)
  next
    case (Inr y)
    then obtain disp n' where
      y: "parseDisp fp p (drop_bit 6 (unat b AND 192)) (unat b AND 7) n = Inr (disp, n')"
      by (cases y) auto
    from parseSIB_Inr [OF x] have "unat b AND 7 \<noteq> 4 \<longrightarrow> scl = 0" by simp
    with assms x y show ?thesis by (simp add: parseModRM_def Let_def)
  qed
qed

lemma parseModRM_cases:
  assumes "parseModRM fp p rex u1 u2 = Inr (k, o1, o2)"
  obtains
    (Regs) b where "read8 fp p = Inr b" "drop_bit 6 (unat b AND 192) = 3" "k = 1"
      "o1 = u1\<lparr>otype := (if rex > 0 \<and> rex AND REX_MASK_W \<noteq> 0 then OT_Reg64 else OT_Reg32),
          reg := (if rex > 0 \<and> rex AND REX_MASK_B \<noteq> 0 then Reg_AX + (unat b AND 7) + 8
                  else Reg_AX + (unat b AND 7))\<rparr>"
      "o2 = u2\<lparr>otype := (if rex > 0 \<and> rex AND REX_MASK_W \<noteq> 0 then OT_Reg64 else OT_Reg32),
          reg := Reg_AX + drop_bit 3 (unat b AND 56)\<rparr>"
  | (Mem) b scl idx base n disp where "read8 fp p = Inr b" "drop_bit 6 (unat b AND 192) \<noteq> 3"
      "parseSIB fp p (unat b AND 7) 1 = Inr (scl, idx, base, n)"
      "parseDisp fp p (drop_bit 6 (unat b AND 192)) (unat b AND 7) n = Inr (disp, k)"
      "o1 = u1\<lparr>otype := (if rex > 0 \<and> rex AND REX_MASK_W \<noteq> 0 then OT_Ind64 else OT_Ind32),
            scale := scl, val := disp,
            ireg := (if scl = 0 then ireg u1 else if idx = 4 then Reg_None
                     else if rex > 0 \<and> rex AND REX_MASK_X \<noteq> 0 then Reg_AX + idx + 8
                     else Reg_AX + idx),
            reg := (if scl = 0 then
                      (if drop_bit 6 (unat b AND 192) = 0 \<and> unat b AND 7 = 5 then Reg_None
                       else if rex > 0 \<and> rex AND REX_MASK_B \<noteq> 0 then Reg_AX + (unat b AND 7) + 8
                       else Reg_AX + (unat b AND 7))
                    else
                      (if base = 5 \<and> drop_bit 6 (unat b AND 192) = 0 then Reg_None
                       else if rex > 0 \<and> rex AND REX_MASK_B \<noteq> 0 then Reg_AX + base + 8
                       else Reg_AX + base))\<rparr>"
      "o2 = u2\<lparr>otype := (if rex > 0 \<and> rex AND REX_MASK_W \<noteq> 0 then OT_Reg64 else OT_Reg32),
            reg := Reg_AX + drop_bit 3 (unat b AND 56)\<rparr>"
proof -
  from assms obtain b where b: "read8 fp p = Inr b"
    by (cases "read8 fp p") (simp_all add: parseModRM_def)
  show thesis
  proof (cases "drop_bit 6 (unat b AND 192) = 3")
    case True
    from assms show thesis
      unfolding parseModRM_reg_form [OF b True] by (intro Regs [OF b True]) blast+
  next
    case False
    note f = parseModRM_mem_form [OF b False, of rex u1 u2]
    from assms obtain x where x: "parseSIB fp p (unat b AND 7) 1 = Inr x"
      unfolding f by (cases "parseSIB fp p (unat b AND 7) 1") simp_all
    obtain scl idx base n where xe: "x = (scl, idx, base, n)" by (cases x)
    from assms x xe obtain y where
      y: "parseDisp fp p (drop_bit 6 (unat b AND 192)) (unat b AND 7) n = Inr y"
      unfolding f
      by (cases "parseDisp fp p (drop_bit 6 (unat b AND 192)) (unat b AND 7) n") simp_all
    obtain disp k' where ye: "y = (disp, k')" by (cases y)
    note y' = y [unfolded ye]
    from assms y' show thesis
      apply (simp only: f x xe ye bindE.simps prod.case)
      apply (rule Mem [OF b False x [unfolded xe], of disp])
        apply blast+
      done
  qed
qed

text \<open>
  The register operand (\<^verbatim>\<open>o2\<close>) never gets past \<^verbatim>\<open>Reg_DI\<close>, whatever the prefix:
  \<^verbatim>\<open>o2->reg = r\<close> is \<^verbatim>\<open>Reg_AX + reg\<close> with the three bits of the reg field.
\<close>

lemma parseModRM_reg_operand:
  assumes "parseModRM fp p rex u1 u2 = Inr (k, o1, o2)"
  shows "reg o2 = Reg_AX + drop_bit 3 (unat (fp ! p) AND 56) \<and> reg o2 \<le> Reg_DI"
proof -
  from assms have "reg o2 = Reg_AX + drop_bit 3 (unat (fp ! p) AND 56)"
    by (cases rule: parseModRM_cases) (auto simp: read8_def split: if_splits)
  then show ?thesis
    using field3_le [of "unat (fp ! p)"] by (simp add: Reg_defs)
qed

lemma parseModRM_Ind:
  assumes "parseModRM fp p rex u1 u2 = Inr (k, o1, o2)"
    and "otype o1 = OT_Ind32 \<or> otype o1 = OT_Ind64"
  shows "scale o1 \<in> {0, 1, 2, 4, 8}
         \<and> (scale o1 > 0 \<longrightarrow> ireg o1 < Reg_Max
               \<and> (ireg o1 = Reg_None \<longrightarrow> drop_bit 3 (unat (fp ! (p + 1)) AND 56) = 4))"
  using assms(1)
proof (cases rule: parseModRM_cases)
  case (Regs b)
  with assms(2) show ?thesis by (simp split: if_splits)
next
  case (Mem b scl idx base n disp)
  from parseSIB_Inr [OF Mem(3)] Mem(5) show ?thesis
    by (auto simp: Reg_defs)
qed

text \<open>
  Claim C1.  The claim: with REX.R set, the register operand of a ModR/M byte is
  \<open>r8..r15\<close>.  The code adds 8 to \<^verbatim>\<open>reg\<close> after \<^verbatim>\<open>r = Reg_AX + reg\<close> was taken
  and stores \<^verbatim>\<open>r\<close>.  At the bytes \<^verbatim>\<open>4C 89 C0\<close> (\<open>mov %r8,%rax\<close>: REX.W and REX.R,
  ModR/M \<^verbatim>\<open>C0\<close>) the register operand is \<open>Reg_AX\<close>, not \<open>Reg_8\<close>.
\<close>

theorem parseModRM_rexR_not_applied:
  "parseModRM [0xC0] 0 0xC u1 u2
     = Inr (1, u1\<lparr>otype := OT_Reg64, reg := Reg_AX\<rparr>, u2\<lparr>otype := OT_Reg64, reg := Reg_AX\<rparr>)
   \<and> Reg_AX \<noteq> Reg_8"
  by (simp add: parse_defs Reg_defs)

text \<open>
  Claim C2.  The claim: a SIB byte with base field 5 under mod 0 gives base
  \<open>None\<close> and a 32-bit displacement is read, its 4 bytes counted in the result.
  The code sets the base to \<open>Reg_None\<close> and reads no displacement: on
  \<^verbatim>\<open>04 25 10 00 00 00\<close> (ModR/M \<^verbatim>\<open>04\<close>, SIB \<^verbatim>\<open>25\<close>, displacement \<open>0x10\<close>) it
  returns 2 bytes and displacement 0.
\<close>

theorem parseModRM_sib_base5_no_disp:
  "parseModRM [0x04, 0x25, 0x10, 0x00, 0x00, 0x00] 0 0 u1 u2
     = Inr (2, u1\<lparr>otype := OT_Ind32, scale := 1, val := 0, ireg := Reg_None, reg := Reg_None\<rparr>,
            u2\<lparr>otype := OT_Reg32, reg := Reg_AX\<rparr>)"
  by (simp add: parse_defs Reg_defs)

text \<open>
  Claim C5, as amended.  An indirect operand that \<^verbatim>\<open>parseModRM\<close> produces has a
  scale in \<open>{0, 1, 2, 4, 8}\<close>; when the scale is positive its \<^verbatim>\<open>ireg\<close> is a
  register id below \<^verbatim>\<open>Reg_Max\<close>, and it is \<open>Reg_None\<close> only if the index field
  of the SIB byte is 4.  \<^verbatim>\<open>copyOperand\<close> of an indirect operand, when it returns,
  carries type and scale over, and for a positive scale the scale is one of
  1, 2, 4, 8 and \<^verbatim>\<open>ireg\<close> is carried over and is below \<^verbatim>\<open>Reg_Max\<close>.
  A positive scale with \<^verbatim>\<open>ireg = Reg_None\<close> is what the decoder gives for "no
  index", and the assertion of \<^verbatim>\<open>copyOperand\<close> admits it.
\<close>

theorem indirect_scale_ireg:
  "(parseModRM fp p rex u1 u2 = Inr (k, o1, o2) \<and> (otype o1 = OT_Ind32 \<or> otype o1 = OT_Ind64)
      \<longrightarrow> scale o1 \<in> {0, 1, 2, 4, 8}
         \<and> (scale o1 > 0 \<longrightarrow> ireg o1 < Reg_Max
               \<and> (ireg o1 = Reg_None \<longrightarrow> drop_bit 3 (unat (fp ! (p + 1)) AND 56) = 4)))
   \<and> (copyOperand d s = Inr d' \<and> (otype s = OT_Ind32 \<or> otype s = OT_Ind64)
      \<longrightarrow> otype d' = otype s \<and> scale d' = scale s
         \<and> (scale s > 0 \<longrightarrow> scale s \<in> {1, 2, 4, 8} \<and> ireg d' = ireg s \<and> ireg s < Reg_Max))"
  using parseModRM_Ind [of fp p rex u1 u2 k o1 o2] copyOperand_Ind [of d s d']
  by blast

theorem indirect_scale_ireg_witness:
  "parseModRM [0x04, 0x88] 0 0
       \<lparr>otype = OT_None, reg = 0, ireg = 0, val = 0, scale = 0\<rparr>
       \<lparr>otype = OT_None, reg = 0, ireg = 0, val = 0, scale = 0\<rparr>
     = Inr (2, \<lparr>otype = OT_Ind32, reg = Reg_AX, ireg = Reg_CX, val = 0, scale = 4\<rparr>,
               \<lparr>otype = OT_Reg32, reg = Reg_AX, ireg = 0, val = 0, scale = 0\<rparr>)
   \<and> scale \<lparr>otype = OT_Ind32, reg = Reg_AX, ireg = Reg_CX, val = 0, scale = 4\<rparr> \<in> {0, 1, 2, 4, 8}
   \<and> ireg \<lparr>otype = OT_Ind32, reg = Reg_AX, ireg = Reg_CX, val = 0, scale = 4\<rparr> < Reg_Max
   \<and> parseModRM [0x04, 0x24] 0 0
       \<lparr>otype = OT_None, reg = 0, ireg = 0, val = 0, scale = 0\<rparr>
       \<lparr>otype = OT_None, reg = 0, ireg = 0, val = 0, scale = 0\<rparr>
     = Inr (2, \<lparr>otype = OT_Ind32, reg = Reg_SP, ireg = Reg_None, val = 0, scale = 1\<rparr>,
               \<lparr>otype = OT_Reg32, reg = Reg_AX, ireg = 0, val = 0, scale = 0\<rparr>)
   \<and> drop_bit 3 (unat ([0x04, 0x24 :: byte] ! (0 + 1)) AND 56) = 4
   \<and> copyOperand \<lparr>otype = OT_None, reg = 0, ireg = 0, val = 0, scale = 0\<rparr>
        \<lparr>otype = OT_Ind32, reg = Reg_AX, ireg = Reg_CX, val = 0, scale = 4\<rparr>
     = Inr \<lparr>otype = OT_Ind32, reg = Reg_AX, ireg = Reg_CX, val = 0, scale = 4\<rparr>
   \<and> scale \<lparr>otype = OT_Ind32, reg = Reg_AX, ireg = Reg_CX, val = 0, scale = 4\<rparr> = 4"
  using indirect_scale_ireg
    [of "[0x04, 0x88]" 0 0 "\<lparr>otype = OT_None, reg = 0, ireg = 0, val = 0, scale = 0\<rparr>"
        "\<lparr>otype = OT_None, reg = 0, ireg = 0, val = 0, scale = 0\<rparr>" 2
        "\<lparr>otype = OT_Ind32, reg = Reg_AX, ireg = Reg_CX, val = 0, scale = 4\<rparr>"
        "\<lparr>otype = OT_Reg32, reg = Reg_AX, ireg = 0, val = 0, scale = 0\<rparr>"
        "\<lparr>otype = OT_None, reg = 0, ireg = 0, val = 0, scale = 0\<rparr>"
        "\<lparr>otype = OT_Ind32, reg = Reg_AX, ireg = Reg_CX, val = 0, scale = 4\<rparr>"
        "\<lparr>otype = OT_Ind32, reg = Reg_AX, ireg = Reg_CX, val = 0, scale = 4\<rparr>"]
    indirect_scale_ireg
    [of "[0x04, 0x24]" 0 0 "\<lparr>otype = OT_None, reg = 0, ireg = 0, val = 0, scale = 0\<rparr>"
        "\<lparr>otype = OT_None, reg = 0, ireg = 0, val = 0, scale = 0\<rparr>" 2
        "\<lparr>otype = OT_Ind32, reg = Reg_SP, ireg = Reg_None, val = 0, scale = 1\<rparr>"
        "\<lparr>otype = OT_Reg32, reg = Reg_AX, ireg = 0, val = 0, scale = 0\<rparr>"]
  by (simp add: parse_defs Reg_defs copyOperand_def)

text \<open>
  Claim C5 as stated fails: on ModR/M \<^verbatim>\<open>04\<close>, SIB \<^verbatim>\<open>24\<close> (the memory operand of
  \<open>mov %eax,(%rsp)\<close>) the decoder gives scale 1 with \<^verbatim>\<open>ireg = Reg_None\<close>, and
  \<^verbatim>\<open>copyOperand\<close> copies that operand as it is.
\<close>

theorem decoder_scale_without_index_counterexample:
  "parseModRM [0x04, 0x24] 0 0
       \<lparr>otype = OT_None, reg = 0, ireg = 0, val = 0, scale = 0\<rparr>
       \<lparr>otype = OT_None, reg = 0, ireg = 0, val = 0, scale = 0\<rparr>
     = Inr (2, \<lparr>otype = OT_Ind32, reg = Reg_SP, ireg = Reg_None, val = 0, scale = 1\<rparr>,
               \<lparr>otype = OT_Reg32, reg = Reg_AX, ireg = 0, val = 0, scale = 0\<rparr>)
   \<and> copyOperand \<lparr>otype = OT_None, reg = 0, ireg = 0, val = 0, scale = 0\<rparr>
        \<lparr>otype = OT_Ind32, reg = Reg_SP, ireg = Reg_None, val = 0, scale = 1\<rparr>
     = Inr \<lparr>otype = OT_Ind32, reg = Reg_SP, ireg = Reg_None, val = 0, scale = 1\<rparr>
   \<and> scale \<lparr>otype = OT_Ind32, reg = Reg_SP, ireg = Reg_None, val = 0, scale = 1\<rparr> > 0
   \<and> ireg \<lparr>otype = OT_Ind32, reg = Reg_SP, ireg = Reg_None, val = 0, scale = 1\<rparr> = Reg_None"
  by (simp add: parse_defs Reg_defs copyOperand_def)

section \<open>Decoding instructions\<close>

text \<open>
  Claim C3.  The claim: \<^verbatim>\<open>50+r\<close> and \<^verbatim>\<open>58+r\<close> under a REX prefix with the B bit
  give \<open>r8..r15\<close>.  The code passes \<^verbatim>\<open>Reg_AX + (fp[o] - 0x50)\<close> (and \<^verbatim>\<open>0x58\<close>) to
  \<^verbatim>\<open>getRegOp\<close> and never looks at \<^verbatim>\<open>rex\<close>: \<^verbatim>\<open>41 50\<close> (\<open>push %r8\<close>) and
  \<^verbatim>\<open>41 58\<close> (\<open>pop %r8\<close>) decode to PUSH and POP of \<open>Reg_AX\<close>.
\<close>

theorem decodeInstr_push_pop_ignore_rexB:
  "decodeInstr [0x41, 0x50] f sar u1 u2 \<lparr>count = 0, capacity = 1, instr = ins\<rparr> 0 0
     = Inr (\<lparr>count = 1, capacity = 1,
             instr = ins(0 := (ins 0)\<lparr>addr := f, itype := IT_PUSH,
                      dst := (dst (ins 0))\<lparr>otype := OT_Reg64, reg := Reg_AX\<rparr>\<rparr>)\<rparr>,
            2, 1, False)
   \<and> decodeInstr [0x41, 0x58] f sar u1 u2 \<lparr>count = 0, capacity = 1, instr = ins\<rparr> 0 0
     = Inr (\<lparr>count = 1, capacity = 1,
             instr = ins(0 := (ins 0)\<lparr>addr := f, itype := IT_POP,
                      dst := (dst (ins 0))\<lparr>otype := OT_Reg64, reg := Reg_AX\<rparr>\<rparr>)\<rparr>,
            2, 1, False)"
  by (simp add: decodeInstr_def scanPrefixes.simps read8_def add_defs Reg_defs
        word_le_def word_less_def)

section \<open>Emulator: loads, stores and operands\<close>









lemma store32_other:
  "x \<noteq> a \<Longrightarrow> x \<noteq> a + 1 \<Longrightarrow> x \<noteq> a + 2 \<Longrightarrow> x \<noteq> a + 3 \<Longrightarrow> store32 m a v x = m x"
  by (simp add: store32_def)

lemma store64_other:
  "x \<noteq> a \<Longrightarrow> x \<noteq> a + 1 \<Longrightarrow> x \<noteq> a + 2 \<Longrightarrow> x \<noteq> a + 3 \<Longrightarrow> x \<noteq> a + 4 \<Longrightarrow> x \<noteq> a + 5
     \<Longrightarrow> x \<noteq> a + 6 \<Longrightarrow> x \<noteq> a + 7 \<Longrightarrow> store64 m a v x = m x"
  by (simp add: store64_def)



text \<open>The ways \<^verbatim>\<open>setOpValue\<close> returns, and what a read of the operand gives afterwards.\<close>

lemma getOpAddr_mem [simp]: "getOpAddr (es\<lparr>mem := m\<rparr>) opd = getOpAddr es opd"
  by (simp add: getOpAddr_def getReg_def)

lemma bindE_Inr_iff: "bindE m f = Inr y \<longleftrightarrow> (\<exists>x. m = Inr x \<and> f x = Inr y)"
  by (cases m) auto

lemma setOpValue_cases:
  assumes "setOpValue es d v = Inr es'"
  obtains
    (Reg32) "otype d = OT_Reg32" "reg d < Reg_Max"
      "es' = es\<lparr>r := (r es)(reg d := ucast (ucast v :: u32))\<rparr>"
  | (Reg64) "otype d = OT_Reg64" "reg d < Reg_Max" "es' = es\<lparr>r := (r es)(reg d := v)\<rparr>"
  | (Ind32) a where "otype d = OT_Ind32" "getOpAddr es d = Inr a"
      "es' = es\<lparr>mem := store32 (mem es) a (ucast v)\<rparr>"
  | (Ind64) a where "otype d = OT_Ind64" "getOpAddr es d = Inr a"
      "es' = es\<lparr>mem := store64 (mem es) a v\<rparr>"
proof -
  consider "otype d = OT_Reg32" | "otype d = OT_Reg64" | "otype d = OT_Ind32" | "otype d = OT_Ind64"
    | "otype d \<noteq> OT_Reg32" "otype d \<noteq> OT_Reg64" "otype d \<noteq> OT_Ind32" "otype d \<noteq> OT_Ind64"
    by blast
  then show thesis
  proof cases
    case 1
    with assms show thesis
      by (intro Reg32) (auto simp: setOpValue_def setReg_def split: if_splits)
  next
    case 2
    with assms show thesis
      by (intro Reg64) (auto simp: setOpValue_def setReg_def split: if_splits)
  next
    case 3
    with assms obtain a where "getOpAddr es d = Inr a" "es' = es\<lparr>mem := store32 (mem es) a (ucast v)\<rparr>"
      by (auto simp: setOpValue_def bindE_Inr_iff)
    with 3 show thesis by (rule Ind32)
  next
    case 4
    with assms obtain a where "getOpAddr es d = Inr a" "es' = es\<lparr>mem := store64 (mem es) a v\<rparr>"
      by (auto simp: setOpValue_def bindE_Inr_iff)
    with 4 show thesis by (rule Ind64)
  next
    case 5
    with assms show thesis by (simp add: setOpValue_def)
  qed
qed










lemma setOpValue_frame:
  assumes "setOpValue es d v = Inr es'"
  shows "stack es' = stack es \<and> stack_capacity es' = stack_capacity es
     \<and> (otype d = OT_Reg32 \<or> otype d = OT_Reg64 \<or> otype d = OT_Ind32 \<or> otype d = OT_Ind64)
     \<and> (otype d = OT_Reg32 \<or> otype d = OT_Reg64 \<longrightarrow>
           mem es' = mem es \<and> (\<forall>k. k \<noteq> reg d \<longrightarrow> r es' k = r es k))
     \<and> (otype d = OT_Ind32 \<longrightarrow> r es' = r es
           \<and> (\<exists>a. getOpAddr es d = Inr a
                 \<and> (\<forall>x. x \<notin> {a, a + 1, a + 2, a + 3} \<longrightarrow> mem es' x = mem es x)))
     \<and> (otype d = OT_Ind64 \<longrightarrow> r es' = r es
           \<and> (\<exists>a. getOpAddr es d = Inr a
                 \<and> (\<forall>x. x \<notin> {a, a + 1, a + 2, a + 3, a + 4, a + 5, a + 6, a + 7}
                        \<longrightarrow> mem es' x = mem es x)))"
  using assms
proof (cases rule: setOpValue_cases)
  case Reg32
  then show ?thesis by simp
next
  case Reg64
  then show ?thesis by simp
next
  case (Ind32 a)
  then show ?thesis by (simp add: store32_other)
next
  case (Ind64 a)
  then show ?thesis by (simp add: store64_other)
qed



lemma getOpAddr_stack [simp]:
  "getOpAddr (es\<lparr>stack := s, stack_capacity := k\<rparr>) opd = getOpAddr es opd"
  by (simp add: getOpAddr_def getReg_def)

lemma getOpValue_stack [simp]:
  "getOpValue (es\<lparr>stack := s, stack_capacity := k\<rparr>) opd = getOpValue es opd"
  by (simp add: getOpValue_def getReg_def)







section \<open>Emulator: ADD\<close>




section \<open>Emulator: what one instruction changes\<close>

text \<open>
  A store whose bytes lie outside \<^verbatim>\<open>emuState\<close> changes \<open>mem\<close> and no field of
  the state, and a load there reads \<open>mem\<close>.
\<close>

lemma poke_apart:
  assumes "152 \<le> unat (x - ea)"
  shows "poke ea es x b = es\<lparr>mem := (mem es)(x := b)\<rparr>"
  using assms by (simp add: poke_def Let_def)

lemma store32At_apart:
  assumes "apart32 ea a"
  shows "store32At ea es a v = es\<lparr>mem := store32 (mem es) a v\<rparr>"
  using assms by (simp add: apart32_def store32At_def store32_def poke_apart Let_def)

lemma store64At_apart:
  assumes "apart64 ea a"
  shows "store64At ea es a v = es\<lparr>mem := store64 (mem es) a v\<rparr>"
  using assms by (simp add: apart64_def store64At_def store64_def poke_apart Let_def)

lemma peek_apart:
  assumes "152 \<le> unat (x - ea)"
  shows "peek ea es x = mem es x"
  using assms by (simp add: peek_def Let_def)

lemma load32At_apart:
  assumes "apart32 ea a"
  shows "load32At ea es a = load32 (mem es) a"
  using assms by (simp add: apart32_def load32At_def load32_def peek_apart)

lemma load64At_apart:
  assumes "apart64 ea a"
  shows "load64At ea es a = load64 (mem es) a"
  using assms by (simp add: apart64_def load64At_def load64_def peek_apart)

lemma apart64_32:
  assumes "apart64 ea a"
  shows "apart32 ea a"
  using assms by (simp add: apart64_def apart32_def)

lemma setOpValueAt_reg:
  assumes "otype d = OT_Reg32 \<or> otype d = OT_Reg64"
  shows "setOpValueAt ea es d v = setOpValue es d v"
  using assms by (auto simp: setOpValueAt_def setOpValue_def)

lemma setOpValueAt_apart:
  assumes "otype d = OT_Ind32 \<longrightarrow> (\<forall>a. getOpAddr es d = Inr a \<longrightarrow> apart32 ea a)"
    and "otype d = OT_Ind64 \<longrightarrow> (\<forall>a. getOpAddr es d = Inr a \<longrightarrow> apart64 ea a)"
  shows "setOpValueAt ea es d v = setOpValue es d v"
proof (cases "getOpAddr es d")
  case (Inl e)
  then show ?thesis by (simp add: setOpValueAt_def setOpValue_def)
next
  case (Inr a)
  with assms show ?thesis
    by (simp add: setOpValueAt_def setOpValue_def store32At_apart store64At_apart)
qed

lemma emulateAt_MOV_ADD_cases:
  assumes "itype i = IT_MOV \<or> itype i = IT_ADD" and "emulateInstrAt ea es i = Inr (es', fr)"
  obtains v where "setOpValueAt ea es (dst i) v = Inr es'" "\<not> fr"
proof -
  have it: "itype i \<noteq> IT_PUSH" "itype i \<noteq> IT_POP" using assms(1) by auto
  consider "otype (src i) = OT_Reg32 \<or> otype (src i) = OT_Ind32"
    | "\<not> (otype (src i) = OT_Reg32 \<or> otype (src i) = OT_Ind32)"
      "otype (src i) = OT_Reg64 \<or> otype (src i) = OT_Ind64"
    | "\<not> (otype (src i) = OT_Reg32 \<or> otype (src i) = OT_Ind32)"
      "\<not> (otype (src i) = OT_Reg64 \<or> otype (src i) = OT_Ind64)"
    by blast
  then show thesis
  proof cases
    case 1
    from assms(1) show thesis
    proof
      assume m: "itype i = IT_MOV"
      with assms(2) 1 have
        "bindE (opWidth (otype (dst i))) (\<lambda>w.
             if w = 32 then
               bindE (getOpValueAt ea es (src i)) (\<lambda>v.
                 let v32 = (ucast v :: u32) in
                 bindE (setOpValueAt ea es (dst i) (ucast v32)) (\<lambda>es. Inr (es, False)))
             else Inl AssertFailed) = Inr (es', fr)"
        by (simp add: emulateInstrAt_def)
      then obtain v where "setOpValueAt ea es (dst i) v = Inr es'" "\<not> fr"
        by (auto simp: bindE_Inr_iff Let_def split: if_splits)
      then show thesis by (rule that)
    next
      assume m: "itype i = IT_ADD"
      with assms(2) 1 have
        "bindE (opWidth (otype (dst i))) (\<lambda>w.
             if w = 32 then
               bindE (getOpValueAt ea es (src i)) (\<lambda>v.
               bindE (getOpValueAt ea es (dst i)) (\<lambda>v'.
                 let v32 = (ucast v :: u32) + ucast v' in
                 bindE (setOpValueAt ea es (dst i) (ucast v32)) (\<lambda>es. Inr (es, False))))
             else Inl AssertFailed) = Inr (es', fr)"
        by (simp add: emulateInstrAt_def)
      then obtain v where "setOpValueAt ea es (dst i) v = Inr es'" "\<not> fr"
        by (auto simp: bindE_Inr_iff Let_def split: if_splits)
      then show thesis by (rule that)
    qed
  next
    case 2
    from assms(1) show thesis
    proof
      assume m: "itype i = IT_MOV"
      with assms(2) 2 have
        "bindE (opWidth (otype (dst i))) (\<lambda>w.
             if w = 64 then
               bindE (getOpValueAt ea es (src i)) (\<lambda>v64.
                 bindE (setOpValueAt ea es (dst i) v64) (\<lambda>es. Inr (es, False)))
             else Inl AssertFailed) = Inr (es', fr)"
        by (simp add: emulateInstrAt_def)
      then obtain v where "setOpValueAt ea es (dst i) v = Inr es'" "\<not> fr"
        by (auto simp: bindE_Inr_iff Let_def split: if_splits)
      then show thesis by (rule that)
    next
      assume m: "itype i = IT_ADD"
      with assms(2) 2 have
        "bindE (opWidth (otype (dst i))) (\<lambda>w.
             if w = 64 then
               bindE (getOpValueAt ea es (src i)) (\<lambda>v.
               bindE (getOpValueAt ea es (dst i)) (\<lambda>v'.
                 let v64 = v + v' in
                 bindE (setOpValueAt ea es (dst i) v64) (\<lambda>es. Inr (es, False))))
             else Inl AssertFailed) = Inr (es', fr)"
        by (simp add: emulateInstrAt_def)
      then obtain v where "setOpValueAt ea es (dst i) v = Inr es'" "\<not> fr"
        by (auto simp: bindE_Inr_iff Let_def split: if_splits)
      then show thesis by (rule that)
    qed
  next
    case 3
    with assms show thesis by (auto simp: emulateInstrAt_def)
  qed
qed

lemma emulateAt_PUSH_cases:
  assumes "itype i = IT_PUSH" and "emulateInstrAt ea es i = Inr (es', fr)"
  obtains
    (Push32) v where "otype (dst i) = OT_Reg32" "inStack es (r es Reg_SP - 4)" "\<not> fr"
      "es' = store32At ea (es\<lparr>r := (r es)(Reg_SP := r es Reg_SP - 4)\<rparr>) (r es Reg_SP - 4) v"
  | (Push64) v where "otype (dst i) = OT_Reg64" "inStack es (r es Reg_SP - 8)" "\<not> fr"
      "es' = store64At ea (es\<lparr>r := (r es)(Reg_SP := r es Reg_SP - 8)\<rparr>) (r es Reg_SP - 8) v"
proof -
  consider "otype (dst i) = OT_Reg32" | "otype (dst i) = OT_Reg64"
    | "otype (dst i) \<noteq> OT_Reg32" "otype (dst i) \<noteq> OT_Reg64"
    by blast
  then show thesis
  proof cases
    case 1
    with assms have
      "(let es = es\<lparr>r := (r es)(Reg_SP := r es Reg_SP - 4)\<rparr> in
            bindE (checkStackAddr es) (\<lambda>_.
            bindE (getOpValueAt ea es (dst i)) (\<lambda>v.
              Inr (store32At ea es (r es Reg_SP) (ucast v), False)))) = Inr (es', fr)"
      by (simp add: emulateInstrAt_def)
    then obtain v where "inStack es (r es Reg_SP - 4)" "\<not> fr"
      "es' = store32At ea (es\<lparr>r := (r es)(Reg_SP := r es Reg_SP - 4)\<rparr>) (r es Reg_SP - 4) v"
      by (auto simp: bindE_Inr_iff Let_def checkStackAddr_def inStack_def split: if_splits)
    with 1 show thesis by (intro Push32)
  next
    case 2
    with assms have
      "(let es = es\<lparr>r := (r es)(Reg_SP := r es Reg_SP - 8)\<rparr> in
            bindE (checkStackAddr es) (\<lambda>_.
            bindE (getOpValueAt ea es (dst i)) (\<lambda>v.
              Inr (store64At ea es (r es Reg_SP) v, False)))) = Inr (es', fr)"
      by (simp add: emulateInstrAt_def)
    then obtain v where "inStack es (r es Reg_SP - 8)" "\<not> fr"
      "es' = store64At ea (es\<lparr>r := (r es)(Reg_SP := r es Reg_SP - 8)\<rparr>) (r es Reg_SP - 8) v"
      by (auto simp: bindE_Inr_iff Let_def checkStackAddr_def inStack_def split: if_splits)
    with 2 show thesis by (intro Push64)
  next
    case 3
    with assms show thesis by (simp add: emulateInstrAt_def)
  qed
qed

lemma emulateAt_POP_cases:
  assumes "itype i = IT_POP" and "emulateInstrAt ea es i = Inr (es', fr)"
  obtains v es1 k where "otype (dst i) = OT_Reg32 \<or> otype (dst i) = OT_Reg64"
    "inStack es (r es Reg_SP)" "\<not> fr"
    "setOpValue es (dst i) v = Inr es1" "es' = es1\<lparr>r := (r es1)(Reg_SP := r es1 Reg_SP + k)\<rparr>"
proof -
  consider "otype (dst i) = OT_Reg32" | "otype (dst i) = OT_Reg64"
    | "otype (dst i) \<noteq> OT_Reg32" "otype (dst i) \<noteq> OT_Reg64"
    by blast
  then show thesis
  proof cases
    case 1
    with assms have
      "bindE (checkStackAddr es) (\<lambda>_.
           bindE (setOpValueAt ea es (dst i) (ucast (load32At ea es (r es Reg_SP)))) (\<lambda>es.
             Inr (es\<lparr>r := (r es)(Reg_SP := r es Reg_SP + 4)\<rparr>, False))) = Inr (es', fr)"
      by (simp add: emulateInstrAt_def)
    then obtain es1 where "inStack es (r es Reg_SP)" "\<not> fr"
      "setOpValueAt ea es (dst i) (ucast (load32At ea es (r es Reg_SP))) = Inr es1"
      "es' = es1\<lparr>r := (r es1)(Reg_SP := r es1 Reg_SP + 4)\<rparr>"
      by (auto simp: bindE_Inr_iff checkStackAddr_def split: if_splits)
    with 1 show thesis by (intro that) (auto simp: setOpValueAt_reg)
  next
    case 2
    with assms have
      "bindE (checkStackAddr es) (\<lambda>_.
           bindE (setOpValueAt ea es (dst i) (load64At ea es (r es Reg_SP))) (\<lambda>es.
             Inr (es\<lparr>r := (r es)(Reg_SP := r es Reg_SP + 8)\<rparr>, False))) = Inr (es', fr)"
      by (simp add: emulateInstrAt_def)
    then obtain es1 where "inStack es (r es Reg_SP)" "\<not> fr"
      "setOpValueAt ea es (dst i) (load64At ea es (r es Reg_SP)) = Inr es1"
      "es' = es1\<lparr>r := (r es1)(Reg_SP := r es1 Reg_SP + 8)\<rparr>"
      by (auto simp: bindE_Inr_iff checkStackAddr_def split: if_splits)
    with 2 show thesis by (intro that) (auto simp: setOpValueAt_reg)
  next
    case 3
    with assms show thesis by (simp add: emulateInstrAt_def)
  qed
qed

lemma emulateInstrAt_itype:
  assumes "emulateInstrAt ea es i = Inr (es', fr)"
  shows "itype i = IT_PUSH \<or> itype i = IT_POP \<or> itype i = IT_MOV \<or> itype i = IT_ADD
         \<or> itype i = IT_RET"
  using assms by (cases "itype i") (simp_all add: emulateInstrAt_def)

text \<open>
  When no address that the instruction computes, and no byte of the stack at
  \<^verbatim>\<open>r[Reg_SP]\<close>, lies inside \<^verbatim>\<open>emuState\<close>, the step is \<open>emulateInstr\<close>.
\<close>

lemma getOpValueAt_apart:
  assumes "\<And>a. getOpAddr es d = Inr a \<Longrightarrow> apart64 ea a"
  shows "getOpValueAt ea es d = getOpValue es d"
proof (cases "getOpAddr es d")
  case (Inl e)
  then show ?thesis by (simp add: getOpValueAt_def getOpValue_def)
next
  case (Inr a)
  with assms have "apart64 ea a" by simp
  with Inr show ?thesis
    by (simp add: getOpValueAt_def getOpValue_def load32At_apart load64At_apart apart64_32)
qed

lemma getOpValueAt_reg:
  assumes "otype d = OT_Reg32 \<or> otype d = OT_Reg64"
  shows "getOpValueAt ea es d = getOpValue es d"
  using assms by (auto simp: getOpValueAt_def getOpValue_def)

lemma apart64_upper:
  assumes "apart64 ea (a - 8)"
  shows "apart32 ea (a - 4)"
proof -
  have "a - 4 = a - 8 + 4" "a - 4 + 1 = a - 8 + 5" "a - 4 + 2 = a - 8 + 6" "a - 4 + 3 = a - 8 + 7"
    by simp_all
  with assms show ?thesis unfolding apart64_def apart32_def by metis
qed

lemma emulateInstrAt_apart:
  assumes s: "\<And>a. getOpAddr es (src i) = Inr a \<Longrightarrow> apart64 ea a"
    and d: "\<And>a. getOpAddr es (dst i) = Inr a \<Longrightarrow> apart64 ea a"
    and sp: "apart64 ea (r es Reg_SP)" and sp8: "apart64 ea (r es Reg_SP - 8)"
  shows "emulateInstrAt ea es i = emulateInstr es i"
proof -
  have gs: "getOpValueAt ea es (src i) = getOpValue es (src i)"
    using s by (rule getOpValueAt_apart)
  have gd: "getOpValueAt ea es (dst i) = getOpValue es (dst i)"
    using d by (rule getOpValueAt_apart)
  have sd: "\<And>v. setOpValueAt ea es (dst i) v = setOpValue es (dst i) v"
    using d by (intro setOpValueAt_apart) (auto simp: apart64_32)
  have l32: "load32At ea es (r es Reg_SP) = load32 (mem es) (r es Reg_SP)"
    using sp by (simp add: load32At_apart apart64_32)
  have l64: "load64At ea es (r es Reg_SP) = load64 (mem es) (r es Reg_SP)"
    using sp by (simp add: load64At_apart)
  have sp4: "apart32 ea (r es Reg_SP - 4)" using sp8 by (rule apart64_upper)
  consider "itype i = IT_PUSH" "otype (dst i) = OT_Reg32"
    | "itype i = IT_PUSH" "otype (dst i) = OT_Reg64"
    | "itype i = IT_PUSH" "otype (dst i) \<noteq> OT_Reg32" "otype (dst i) \<noteq> OT_Reg64"
    | "itype i \<noteq> IT_PUSH"
    by blast
  then show ?thesis
  proof cases
    case 1
    then show ?thesis using sp4
      by (simp add: emulateInstrAt_def emulateInstr_def getOpValueAt_reg store32At_apart Let_def)
  next
    case 2
    then show ?thesis using sp8
      by (simp add: emulateInstrAt_def emulateInstr_def getOpValueAt_reg store64At_apart Let_def)
  next
    case 3
    then show ?thesis by (simp add: emulateInstrAt_def emulateInstr_def)
  next
    case 4
    then show ?thesis
      unfolding emulateInstrAt_def emulateInstr_def gs gd sd l32 l64 by simp
  qed
qed

text \<open>
  Claim C10, as amended.  Let \<^verbatim>\<open>emuState\<close> lie at the address \<open>ea\<close>, let
  \<^verbatim>\<open>emulate\<close> have executed one instruction without a failed assertion, and let
  the bytes that the instruction stores to lie outside \<^verbatim>\<open>emuState\<close>
  (\<open>storeApart\<close>; what the instruction loads may lie anywhere).  Then the
  instruction was PUSH, POP, MOV, ADD or RET; the stack buffer and its capacity
  are as before; and
  \<^item> RET leaves the state as it was;
  \<^item> MOV and ADD with a register destination change no memory and no register but
    the destination; with an indirect destination they change no register and no
    byte of memory outside the 4 or 8 bytes at the address of the destination;
  \<^item> PUSH changes no register but \<^verbatim>\<open>Reg_SP\<close>, which goes down by 4 or 8, and no byte
    of memory outside the 4 or 8 bytes at the new \<^verbatim>\<open>Reg_SP\<close>;
  \<^item> POP changes no memory and no register but \<^verbatim>\<open>Reg_SP\<close> and the destination.

  The claim states this for every step.
\<close>

theorem emulateInstrAt_frame:
  assumes "emulateInstrAt ea es i = Inr (es', fr)" and "storeApart ea es i"
  shows "stack es' = stack es \<and> stack_capacity es' = stack_capacity es
    \<and> (itype i = IT_PUSH \<or> itype i = IT_POP \<or> itype i = IT_MOV \<or> itype i = IT_ADD
         \<or> itype i = IT_RET)
    \<and> (itype i = IT_RET \<longrightarrow> es' = es)
    \<and> (itype i = IT_MOV \<or> itype i = IT_ADD \<longrightarrow>
         (otype (dst i) = OT_Reg32 \<or> otype (dst i) = OT_Reg64 \<or> otype (dst i) = OT_Ind32
          \<or> otype (dst i) = OT_Ind64)
         \<and> (otype (dst i) = OT_Reg32 \<or> otype (dst i) = OT_Reg64 \<longrightarrow>
               mem es' = mem es \<and> (\<forall>k. k \<noteq> reg (dst i) \<longrightarrow> r es' k = r es k))
         \<and> (otype (dst i) = OT_Ind32 \<longrightarrow> r es' = r es
               \<and> (\<exists>a. getOpAddr es (dst i) = Inr a
                     \<and> (\<forall>x. x \<notin> {a, a + 1, a + 2, a + 3} \<longrightarrow> mem es' x = mem es x)))
         \<and> (otype (dst i) = OT_Ind64 \<longrightarrow> r es' = r es
               \<and> (\<exists>a. getOpAddr es (dst i) = Inr a
                     \<and> (\<forall>x. x \<notin> {a, a + 1, a + 2, a + 3, a + 4, a + 5, a + 6, a + 7}
                            \<longrightarrow> mem es' x = mem es x))))
    \<and> (itype i = IT_PUSH \<longrightarrow>
         (\<forall>k. k \<noteq> Reg_SP \<longrightarrow> r es' k = r es k)
         \<and> (otype (dst i) = OT_Reg32 \<or> otype (dst i) = OT_Reg64)
         \<and> (otype (dst i) = OT_Reg32 \<longrightarrow> r es' Reg_SP = r es Reg_SP - 4
               \<and> (\<forall>x. x \<notin> {r es' Reg_SP, r es' Reg_SP + 1, r es' Reg_SP + 2, r es' Reg_SP + 3}
                      \<longrightarrow> mem es' x = mem es x))
         \<and> (otype (dst i) = OT_Reg64 \<longrightarrow> r es' Reg_SP = r es Reg_SP - 8
               \<and> (\<forall>x. x \<notin> {r es' Reg_SP, r es' Reg_SP + 1, r es' Reg_SP + 2, r es' Reg_SP + 3,
                             r es' Reg_SP + 4, r es' Reg_SP + 5, r es' Reg_SP + 6, r es' Reg_SP + 7}
                      \<longrightarrow> mem es' x = mem es x)))
    \<and> (itype i = IT_POP \<longrightarrow>
         mem es' = mem es \<and> (otype (dst i) = OT_Reg32 \<or> otype (dst i) = OT_Reg64)
         \<and> (\<forall>k. k \<noteq> Reg_SP \<and> k \<noteq> reg (dst i) \<longrightarrow> r es' k = r es k))"
proof -
  from emulateInstrAt_itype [OF assms(1)]
  consider (PUSH) "itype i = IT_PUSH" | (POP) "itype i = IT_POP"
    | (MOVADD) "itype i = IT_MOV \<or> itype i = IT_ADD" | (RET) "itype i = IT_RET"
    by blast
  then show ?thesis
  proof cases
    case PUSH
    from PUSH assms(1) show ?thesis
    proof (cases rule: emulateAt_PUSH_cases)
      case (Push32 v)
      with assms(2) PUSH have "apart32 ea (r es Reg_SP - 4)" by (simp add: storeApart_def)
      with Push32 PUSH show ?thesis by (simp add: store32At_apart store32_other)
    next
      case (Push64 v)
      with assms(2) PUSH have "apart64 ea (r es Reg_SP - 8)" by (simp add: storeApart_def)
      with Push64 PUSH show ?thesis by (simp add: store64At_apart store64_other)
    qed
  next
    case POP
    from POP assms(1) show ?thesis
    proof (cases rule: emulateAt_POP_cases)
      case (1 v es1 k)
      from setOpValue_frame [OF 1(4)] 1(1) 1(5) POP show ?thesis by auto
    qed
  next
    case MOVADD
    from MOVADD assms(1) show ?thesis
    proof (cases rule: emulateAt_MOV_ADD_cases)
      case (1 v)
      have ni: "itype i \<noteq> IT_PUSH" using MOVADD by auto
      from assms(2) MOVADD ni
      have "otype (dst i) = OT_Ind32 \<longrightarrow> (\<forall>a. getOpAddr es (dst i) = Inr a \<longrightarrow> apart32 ea a)"
        and "otype (dst i) = OT_Ind64 \<longrightarrow> (\<forall>a. getOpAddr es (dst i) = Inr a \<longrightarrow> apart64 ea a)"
        by (auto simp: storeApart_def)
      from setOpValueAt_apart [OF this] 1(1) have "setOpValue es (dst i) v = Inr es'" by simp
      from setOpValue_frame [OF this] MOVADD show ?thesis by auto
    qed
  next
    case RET
    with assms(1) show ?thesis by (simp add: emulateInstrAt_def)
  qed
qed

theorem emulateInstrAt_frame_witness:
  "storeApart 0x601000
     \<lparr>r = (\<lambda>_. 0)(Reg_DI := 0x0102030405060708, Reg_SP := 0x7040), stack_capacity = 64,
      stack = 0x7000, mem = (\<lambda>_. 0)\<rparr>
     \<lparr>addr = 0, itype = IT_PUSH,
      dst = \<lparr>otype = OT_Reg64, reg = Reg_DI, ireg = 0, val = 0, scale = 0\<rparr>,
      src = \<lparr>otype = OT_None, reg = 0, ireg = 0, val = 0, scale = 0\<rparr>\<rparr>
   \<and> emulateInstrAt 0x601000
     \<lparr>r = (\<lambda>_. 0)(Reg_DI := 0x0102030405060708, Reg_SP := 0x7040), stack_capacity = 64,
      stack = 0x7000, mem = (\<lambda>_. 0)\<rparr>
     \<lparr>addr = 0, itype = IT_PUSH,
      dst = \<lparr>otype = OT_Reg64, reg = Reg_DI, ireg = 0, val = 0, scale = 0\<rparr>,
      src = \<lparr>otype = OT_None, reg = 0, ireg = 0, val = 0, scale = 0\<rparr>\<rparr>
   = Inr (\<lparr>r = (\<lambda>_. 0)(Reg_DI := 0x0102030405060708, Reg_SP := 0x7038), stack_capacity = 64,
           stack = 0x7000, mem = store64 (\<lambda>_. 0) 0x7038 0x0102030405060708\<rparr>, False)
   \<and> store64 (\<lambda>_. 0) 0x7038 0x0102030405060708 0x7037 = 0
   \<and> store64 (\<lambda>_. 0) 0x7038 0x0102030405060708 0x7040 = 0
   \<and> store64 (\<lambda>_. 0) 0x7038 0x0102030405060708 0x7038 = 0x08"
  using emulateInstrAt_frame
    [of "0x601000"
     "\<lparr>r = (\<lambda>_. 0)(Reg_DI := 0x0102030405060708, Reg_SP := 0x7040), stack_capacity = 64,
      stack = 0x7000, mem = (\<lambda>_. 0)\<rparr>"
     "\<lparr>addr = 0, itype = IT_PUSH,
      dst = \<lparr>otype = OT_Reg64, reg = Reg_DI, ireg = 0, val = 0, scale = 0\<rparr>,
      src = \<lparr>otype = OT_None, reg = 0, ireg = 0, val = 0, scale = 0\<rparr>\<rparr>"
     "\<lparr>r = (\<lambda>_. 0)(Reg_DI := 0x0102030405060708, Reg_SP := 0x7038), stack_capacity = 64,
           stack = 0x7000, mem = store64 (\<lambda>_. 0) 0x7038 0x0102030405060708\<rparr>" False]
  apply (simp add: storeApart_def apart64_def emulateInstrAt_def getOpValueAt_def
      checkStackAddr_def inStack_def getReg_def Reg_defs store64At_apart)
  apply (simp add: store64_def)
  done

text \<open>
  Claim C10 as stated fails: with \<^verbatim>\<open>emuState\<close> at \<open>0x601000\<close>, the address of
  \<^verbatim>\<open>emuState.r[Reg_BX]\<close> is \<open>0x601020\<close>, and \<^verbatim>\<open>mov %rcx,(%rax)\<close> with that
  address in \<open>rax\<close> leaves \<^verbatim>\<open>r[Reg_BX] = 0xAB\<close>, where it was \<open>0\<close>: a register
  slot that is not the destination operand's has changed, and the memory outside
  \<^verbatim>\<open>emuState\<close> has not.
\<close>

theorem emulateInstrAt_aliasing_counterexample:
  "getOpAddr
     \<lparr>r = (\<lambda>_. 0)(Reg_CX := 0xAB, Reg_AX := 0x601020, Reg_SP := 0x7040), stack_capacity = 64,
      stack = 0x7000, mem = (\<lambda>_. 0)\<rparr>
     \<lparr>otype = OT_Ind64, reg = Reg_AX, ireg = 0, val = 0, scale = 0\<rparr> = Inr 0x601020
   \<and> emulateInstrAt 0x601000
     \<lparr>r = (\<lambda>_. 0)(Reg_CX := 0xAB, Reg_AX := 0x601020, Reg_SP := 0x7040), stack_capacity = 64,
      stack = 0x7000, mem = (\<lambda>_. 0)\<rparr>
     \<lparr>addr = 0, itype = IT_MOV,
      dst = \<lparr>otype = OT_Ind64, reg = Reg_AX, ireg = 0, val = 0, scale = 0\<rparr>,
      src = \<lparr>otype = OT_Reg64, reg = Reg_CX, ireg = 0, val = 0, scale = 0\<rparr>\<rparr>
   = Inr (\<lparr>r = (\<lambda>_. 0)(Reg_CX := 0xAB, Reg_AX := 0x601020, Reg_SP := 0x7040, Reg_BX := 0xAB),
           stack_capacity = 64, stack = 0x7000, mem = (\<lambda>_. 0)\<rparr>, False)
   \<and> ((\<lambda>_. 0)(Reg_CX := 0xAB, Reg_AX := 0x601020, Reg_SP := 0x7040) :: nat \<Rightarrow> u64) Reg_BX = 0
   \<and> ((\<lambda>_. 0)(Reg_CX := 0xAB, Reg_AX := 0x601020, Reg_SP := 0x7040, Reg_BX := 0xAB)
         :: nat \<Rightarrow> u64) Reg_BX = 0xAB
   \<and> \<not> storeApart 0x601000
     \<lparr>r = (\<lambda>_. 0)(Reg_CX := 0xAB, Reg_AX := 0x601020, Reg_SP := 0x7040), stack_capacity = 64,
      stack = 0x7000, mem = (\<lambda>_. 0)\<rparr>
     \<lparr>addr = 0, itype = IT_MOV,
      dst = \<lparr>otype = OT_Ind64, reg = Reg_AX, ireg = 0, val = 0, scale = 0\<rparr>,
      src = \<lparr>otype = OT_Reg64, reg = Reg_CX, ireg = 0, val = 0, scale = 0\<rparr>\<rparr>"
  apply (simp add: emulateInstrAt_def getOpValueAt_def setOpValueAt_def getOpAddr_def getReg_def
      Reg_defs storeApart_def apart64_def)
  apply (simp add: store64At_def poke_def Let_def setByte_def)
  done


section \<open>Emulator: the stack check\<close>






section \<open>Decoding: unknown opcodes, the budget, and the buffer\<close>

text \<open>
  When does the decoder return?  The prefix loop stops at the first byte that is
  no REX prefix; with room in the buffer, the constructors return; the operands of
  \<^verbatim>\<open>parseModRM\<close> pass the assertions of \<^verbatim>\<open>copyOperand\<close>; so one turn of the loop
  returns when the buffer has room and the bytes it reads are there, and it adds
  one instruction.
\<close>

lemma scanPrefixes_stop:
  assumes "n < length fp" and "\<not> (fp ! n \<ge> 0x40 \<and> fp ! n \<le> 0x4F)"
  shows "scanPrefixes fp n h x = Inr (h, x, n)"
  using assms by (subst scanPrefixes.simps) auto

lemma scanPrefixes_total:
  assumes "n \<le> m" and "m < length fp" and "\<not> (fp ! m \<ge> 0x40 \<and> fp ! m \<le> 0x4F)"
  shows "\<exists>h' x' m'. scanPrefixes fp n h x = Inr (h', x', m') \<and> m' \<le> m"
  using assms
proof (induction fp n h x rule: scanPrefixes.induct)
  case (1 fp n hasRex rex)
  show ?case
  proof (cases "fp ! n \<ge> 0x40 \<and> fp ! n \<le> 0x4F")
    case True
    with "1.prems" have "n \<noteq> m" by auto
    with "1.prems" have nm: "n + 1 \<le> m" and nl: "n < length fp" by simp_all
    from "1.IH" [OF nl True nm "1.prems"(2,3)]
    obtain h' x' m' where
      "scanPrefixes fp (n + 1) True (unat (fp ! n) AND 15) = Inr (h', x', m')" "m' \<le> m"
      by blast
    with True nl show ?thesis
      by (subst scanPrefixes.simps) simp
  next
    case False
    with "1.prems" have "scanPrefixes fp n hasRex rex = Inr (hasRex, rex, n)"
      by (intro scanPrefixes_stop) simp_all
    with "1.prems" show ?thesis by simp
  qed
qed

lemma nextInstr_room:
  assumes "count c < capacity c"
  shows "nextInstr c a =
     Inr (c\<lparr>count := count c + 1, instr := (instr c)(count c := (instr c (count c))\<lparr>addr := a\<rparr>)\<rparr>,
          count c)"
  using assms by (simp add: nextInstr_def Let_def)

lemma addSimple_room:
  assumes "count c < capacity c"
  shows "addSimple c a it =
     Inr (c\<lparr>count := count c + 1,
            instr := (instr c)(count c := (instr c (count c))\<lparr>addr := a, itype := it\<rparr>)\<rparr>)"
  using assms by (simp add: addSimple_def nextInstr_room)

lemma copyOperand_reg_ok:
  assumes "otype s = OT_Reg32 \<or> otype s = OT_Reg64" and "Reg_None < reg s" and "reg s < Reg_Max"
  shows "copyOperand d s = Inr (d\<lparr>otype := otype s, reg := reg s\<rparr>)"
  using assms by (auto simp: copyOperand_def)

lemma copyOperand_ind_ok:
  assumes "otype s = OT_Ind32 \<or> otype s = OT_Ind64" and "reg s < Reg_Max"
    and "scale s > 0 \<longrightarrow> scale s \<in> {1, 2, 4, 8} \<and> ireg s < Reg_Max"
  shows "\<exists>d'. copyOperand d s = Inr d'"
proof (cases "scale s > 0")
  case True
  with assms(3) have "scale s = 1 \<or> scale s = 2 \<or> scale s = 4 \<or> scale s = 8"
    and "ireg s < Reg_Max" by simp_all
  with True assms(1,2) show ?thesis
    by (elim disjE) (simp_all add: copyOperand_def Let_def Reg_None_def)
next
  case False
  with assms(1,2) show ?thesis
    by (elim disjE) (simp_all add: copyOperand_def Let_def Reg_None_def)
qed

lemma addUnaryOp_room:
  assumes "count c < capacity c" and "\<And>d. \<exists>d'. copyOperand d opd = Inr d'"
  shows "\<exists>c'. addUnaryOp c a it opd = Inr c' \<and> count c' = count c + 1 \<and> capacity c' = capacity c"
proof -
  from assms(2) obtain d' where "copyOperand (dst (instr c (count c))) opd = Inr d'" by blast
  with assms(1) show ?thesis
    by (simp add: addUnaryOp_def nextInstr_room)
qed

lemma addBinaryOp_room:
  assumes "count c < capacity c" and "\<And>d. \<exists>d'. copyOperand d opd1 = Inr d'"
    and "\<And>d. \<exists>d'. copyOperand d opd2 = Inr d'"
  shows "\<exists>c'. addBinaryOp c a it opd1 opd2 = Inr c' \<and> count c' = count c + 1
              \<and> capacity c' = capacity c"
proof -
  from assms(2) obtain d' where "copyOperand (dst (instr c (count c))) opd1 = Inr d'" by blast
  moreover
  from assms(3) obtain s' where "copyOperand (src (instr c (count c))) opd2 = Inr s'" by blast
  ultimately show ?thesis using assms(1)
    by (simp add: addBinaryOp_def nextInstr_room)
qed

lemma parseSIB_total:
  assumes "p + n < length fp"
  shows "\<exists>scl idx base n'. parseSIB fp p rm n = Inr (scl, idx, base, n') \<and> n' \<le> n + 1
           \<and> (scl = 0 \<or> scl \<in> {1, 2, 4, 8}) \<and> idx \<le> 7 \<and> base \<le> 7"
  using assms field3_le [of "unat (fp ! (p + n))"] field0_le [of "unat (fp ! (p + n))"]
    scale_cases [OF field6_le, of "unat (fp ! (p + n))"]
  by (auto simp: parseSIB_def read8_def Let_def)

lemma parseDisp_total:
  assumes "p + n + 3 < length fp"
  shows "\<exists>disp n'. parseDisp fp p md rm n = Inr (disp, n') \<and> n' \<le> n + 4"
  using assms by (auto simp: parseDisp_def read8_def read32_def)

lemma parseModRM_total:
  assumes "p + 5 < length fp"
  shows "\<exists>k o1 o2. parseModRM fp p rex u1 u2 = Inr (k, o1, o2) \<and> k \<le> 6
           \<and> (\<forall>d. \<exists>d'. copyOperand d o1 = Inr d') \<and> (\<forall>d. \<exists>d'. copyOperand d o2 = Inr d')"
proof -
  define b where "b = fp ! p"
  from assms have b: "read8 fp p = Inr b" by (simp add: read8_def b_def)
  note f3 = field3_le [of "unat b"] and f0 = field0_le [of "unat b"]
  have ext: "(if c then Reg_AX + x + 8 else Reg_AX + x) < Reg_Max
             \<and> Reg_None < (if c then Reg_AX + x + 8 else Reg_AX + x)"
    if "x \<le> 7" for x c
    using that by (simp add: Reg_defs)
  have tr: "(if c then OT_Reg64 else OT_Reg32) = OT_Reg32 \<or> (if c then OT_Reg64 else OT_Reg32) = OT_Reg64"
    for c by simp
  have ti: "(if c then OT_Ind64 else OT_Ind32) = OT_Ind32 \<or> (if c then OT_Ind64 else OT_Ind32) = OT_Ind64"
    for c by simp
  have o2: "\<exists>d'. copyOperand d (u2\<lparr>otype := (if c then OT_Reg64 else OT_Reg32),
                                      reg := Reg_AX + drop_bit 3 (unat b AND 56)\<rparr>) = Inr d'"
    for d c
    by (rule exI, rule copyOperand_reg_ok) (use f3 in \<open>simp_all add: Reg_defs\<close>)
  show ?thesis
  proof (cases "drop_bit 6 (unat b AND 192) = 3")
    case True
    have o1: "\<exists>d'. copyOperand d (u1\<lparr>otype := (if c then OT_Reg64 else OT_Reg32),
                 reg := (if c' then Reg_AX + (unat b AND 7) + 8 else Reg_AX + (unat b AND 7))\<rparr>)
               = Inr d'" for d c c'
      by (rule exI, rule copyOperand_reg_ok) (use ext [OF f0] in \<open>simp_all\<close>)
    show ?thesis
      unfolding parseModRM_reg_form [OF b True]
      using o1 o2 by (intro exI conjI) (rule refl, simp, blast, blast)
  next
    case False
    from parseSIB_total [of p 1 fp "unat b AND 7"] assms
    obtain scl idx base n where
      sib: "parseSIB fp p (unat b AND 7) 1 = Inr (scl, idx, base, n)" and n: "n \<le> 2"
      and scl: "scl = 0 \<or> scl \<in> {1, 2, 4, 8}" and idx: "idx \<le> 7" and base: "base \<le> 7"
      by auto
    from parseDisp_total [of p n fp "drop_bit 6 (unat b AND 192)" "unat b AND 7"] assms n
    obtain disp k where
      disp: "parseDisp fp p (drop_bit 6 (unat b AND 192)) (unat b AND 7) n = Inr (disp, k)"
      and k: "k \<le> n + 4"
      by auto
    have o1: "\<exists>d'. copyOperand d
        (u1\<lparr>otype := (if c then OT_Ind64 else OT_Ind32), scale := scl, val := disp,
            ireg := (if scl = 0 then ireg u1 else if idx = 4 then Reg_None
                     else if cx then Reg_AX + idx + 8 else Reg_AX + idx),
            reg := (if scl = 0 then
                      (if c0 then Reg_None
                       else if cb then Reg_AX + (unat b AND 7) + 8 else Reg_AX + (unat b AND 7))
                    else
                      (if c5 then Reg_None
                       else if cb then Reg_AX + base + 8 else Reg_AX + base))\<rparr>) = Inr d'"
      for d c cx c0 cb c5
      by (rule copyOperand_ind_ok) (use f0 base scl idx in \<open>auto simp: Reg_defs\<close>)
    from n k have k6: "k \<le> 6" by simp
    show ?thesis
      unfolding parseModRM_mem_form [OF b False] sib disp bindE.simps prod.case
      using o1 o2 k6 by (intro exI conjI) (rule refl, simp, blast, blast)
  qed
qed

lemma getRegOp_64:
  assumes "Reg_None < rg" and "rg < Reg_Max"
  shows "getRegOp 64 rg = Inr \<lparr>otype = OT_Reg64, reg = rg, ireg = 0, val = 0, scale = 0\<rparr>"
  using assms by (simp add: getRegOp_def)

lemma decodeInstr_unknown:
  assumes "scanPrefixes fp n False rex = Inr (h, x, m)"
    and "fp ! m \<noteq> 0xc3" and "\<not> (0x50 \<le> fp ! m \<and> fp ! m \<le> 0x57)"
    and "\<not> (0x58 \<le> fp ! m \<and> fp ! m \<le> 0x5F)"
    and "fp ! m \<noteq> 0x89" and "fp ! m \<noteq> 0x8B" and "fp ! m \<noteq> 0x01"
    and "count c < capacity c"
  shows "decodeInstr fp f sar u1 u2 c n rex =
     Inr (c\<lparr>count := count c + 1,
            instr := (instr c)(count c := (instr c (count c))\<lparr>addr := f + of_nat n,
                                                              itype := IT_Invalid\<rparr>)\<rparr>,
          m + 1, x, False)"
proof -
  from scanPrefixes_bounds [OF assms(1)] have "m < length fp" by simp
  then have rd: "read8 fp m = Inr (fp ! m)" by (simp add: read8_def)
  show ?thesis
    by (simp add: decodeInstr_def Let_def assms(1-7) rd addSimple_room [OF assms(8)])
qed

lemma decodeInstr_total:
  assumes "n \<le> m" and "m + 6 < length fp" and "\<not> (fp ! m \<ge> 0x40 \<and> fp ! m \<le> 0x4F)"
    and "count c < capacity c"
  shows "\<exists>c' n' x rf. decodeInstr fp f sar u1 u2 c n rex = Inr (c', n', x, rf)
           \<and> count c' = count c + 1 \<and> capacity c' = capacity c"
proof -
  from assms have "m < length fp" by simp
  from scanPrefixes_total [OF assms(1) this assms(3), of False rex]
  obtain h x m' where scan: "scanPrefixes fp n False rex = Inr (h, x, m')" and m': "m' \<le> m"
    by blast
  with assms have len: "m' + 6 < length fp" by simp
  then have rd: "read8 fp m' = Inr (fp ! m')" by (simp add: read8_def)
  define b where "b = fp ! m'"
  define a where "a = f + of_nat n"
  note room = assms(4)
  have regop: "\<exists>d'. copyOperand d \<lparr>otype = OT_Reg64, reg = rg, ireg = 0, val = 0, scale = 0\<rparr> = Inr d'"
    if "Reg_None < rg" "rg < Reg_Max" for d rg
    using that by (simp add: copyOperand_reg_ok)
  from parseModRM_total [of "m' + 1" fp] len
  have pm: "\<exists>k o1 o2. parseModRM fp (m' + 1) y v1 v2 = Inr (k, o1, o2) \<and> k \<le> 6
      \<and> (\<forall>d. \<exists>d'. copyOperand d o1 = Inr d') \<and> (\<forall>d. \<exists>d'. copyOperand d o2 = Inr d')"
    for y v1 v2 by simp
  consider (ret) "b = 0xc3"
    | (push) "b \<noteq> 0xc3" "0x50 \<le> b \<and> b \<le> 0x57"
    | (pop) "b \<noteq> 0xc3" "\<not> (0x50 \<le> b \<and> b \<le> 0x57)" "0x58 \<le> b \<and> b \<le> 0x5F"
    | (mov89) "b = 0x89"
    | (mov8B) "b = 0x8B"
    | (add01) "b = 0x01"
    | (other) "b \<noteq> 0xc3" "\<not> (0x50 \<le> b \<and> b \<le> 0x57)" "\<not> (0x58 \<le> b \<and> b \<le> 0x5F)"
        "b \<noteq> 0x89" "b \<noteq> 0x8B" "b \<noteq> 0x01"
    by blast
  then show ?thesis
  proof cases
    case ret
    with scan rd room show ?thesis
      by (simp add: decodeInstr_def Let_def addSimple_room b_def)
  next
    case push
    then have "unat b \<le> 0x57" "0x50 \<le> unat b" by (simp_all add: word_le_nat_alt)
    then have rg: "Reg_None < Reg_AX + (unat b - 0x50)" "Reg_AX + (unat b - 0x50) < Reg_Max"
      by (simp_all add: Reg_defs)
    from addUnaryOp_room [OF room, of _ a IT_PUSH] regop [OF rg]
    obtain c' where "addUnaryOp c a IT_PUSH
        \<lparr>otype = OT_Reg64, reg = Reg_AX + (unat b - 0x50), ireg = 0, val = 0, scale = 0\<rparr> = Inr c'"
      "count c' = count c + 1" "capacity c' = capacity c"
      by blast
    with scan rd show ?thesis
      by (auto simp: decodeInstr_def Let_def getRegOp_64 [OF rg] b_def [symmetric] a_def [symmetric]
            push)
  next
    case pop
    then have "unat b \<le> 0x5F" "0x58 \<le> unat b" by (simp_all add: word_le_nat_alt)
    then have rg: "Reg_None < Reg_AX + (unat b - 0x58)" "Reg_AX + (unat b - 0x58) < Reg_Max"
      by (simp_all add: Reg_defs)
    from addUnaryOp_room [OF room, of _ a IT_POP] regop [OF rg]
    obtain c' where "addUnaryOp c a IT_POP
        \<lparr>otype = OT_Reg64, reg = Reg_AX + (unat b - 0x58), ireg = 0, val = 0, scale = 0\<rparr> = Inr c'"
      "count c' = count c + 1" "capacity c' = capacity c"
      by blast
    with scan rd show ?thesis
      by (auto simp: decodeInstr_def Let_def getRegOp_64 [OF rg] b_def [symmetric] a_def [symmetric]
            pop)
  next
    case mov89
    from pm [of "if h then x else 0" u1 u2] obtain k o1 o2 where
      p: "parseModRM fp (m' + 1) (if h then x else 0) u1 u2 = Inr (k, o1, o2)"
      and c1: "\<And>d. \<exists>d'. copyOperand d o1 = Inr d'" and c2: "\<And>d. \<exists>d'. copyOperand d o2 = Inr d'"
      by blast
    from addBinaryOp_room [OF room c1 c2, of a IT_MOV]
    obtain c' where "addBinaryOp c a IT_MOV o1 o2 = Inr c'"
      "count c' = count c + 1" "capacity c' = capacity c"
      by blast
    with scan rd mov89 p show ?thesis
      by (auto simp: decodeInstr_def Let_def b_def [symmetric] a_def [symmetric] word_le_nat_alt)
  next
    case mov8B
    from pm [of "if h then x else 0" u2 u1] obtain k o2 o1 where
      p: "parseModRM fp (m' + 1) (if h then x else 0) u2 u1 = Inr (k, o2, o1)"
      and c2: "\<And>d. \<exists>d'. copyOperand d o2 = Inr d'" and c1: "\<And>d. \<exists>d'. copyOperand d o1 = Inr d'"
      by blast
    from addBinaryOp_room [OF room c1 c2, of a IT_MOV]
    obtain c' where "addBinaryOp c a IT_MOV o1 o2 = Inr c'"
      "count c' = count c + 1" "capacity c' = capacity c"
      by blast
    with scan rd mov8B p show ?thesis
      by (auto simp: decodeInstr_def Let_def b_def [symmetric] a_def [symmetric] word_le_nat_alt)
  next
    case add01
    from pm [of "if h then x else 0" u1 u2] obtain k o1 o2 where
      p: "parseModRM fp (m' + 1) (if h then x else 0) u1 u2 = Inr (k, o1, o2)"
      and c1: "\<And>d. \<exists>d'. copyOperand d o1 = Inr d'" and c2: "\<And>d. \<exists>d'. copyOperand d o2 = Inr d'"
      by blast
    from addBinaryOp_room [OF room c1 c2, of a IT_ADD]
    obtain c' where "addBinaryOp c a IT_ADD o1 o2 = Inr c'"
      "count c' = count c + 1" "capacity c' = capacity c"
      by blast
    with scan rd add01 p show ?thesis
      by (auto simp: decodeInstr_def Let_def b_def [symmetric] a_def [symmetric] word_le_nat_alt)
  next
    case other
    from decodeInstr_unknown [OF scan other [unfolded b_def] room, of f sar u1 u2]
    show ?thesis by auto
  qed
qed

lemma decodeLoop_stop:
  assumes "\<not> (int n < mx \<and> \<not> rf)"
  shows "decodeLoop fp f mx sar u1 u2 c n rex rf = Inr c"
  using assms by (subst decodeLoop.simps) auto

lemma decodeLoop_step:
  assumes "int n < mx" and "decodeInstr fp f sar u1 u2 c n rex = Inr (c', n', x, rf)"
  shows "decodeLoop fp f mx sar u1 u2 c n rex False = decodeLoop fp f mx sar u1 u2 c' n' x rf"
  using assms by (subst decodeLoop.simps) simp

lemma decodeLoop_total:
  assumes "nat mx + 6 < length fp" and "\<not> (fp ! nat mx \<ge> 0x40 \<and> fp ! nat mx \<le> 0x4F)"
    and "count c + (nat mx - n) \<le> capacity c"
  shows "\<exists>c'. decodeLoop fp f mx sar u1 u2 c n rex rf = Inr c'"
  using assms
proof (induction fp f mx sar u1 u2 c n rex rf rule: decodeLoop.induct)
  case (1 fp f mx stopAtRet u1 u2 c n rex retFound)
  show ?case
  proof (cases "int n < mx \<and> \<not> retFound")
    case True
    then have lt: "n < nat mx" and nr: "\<not> retFound" by linarith+
    with "1.prems" have room: "count c < capacity c" and le: "n \<le> nat mx" by simp_all
    from decodeInstr_total [OF le "1.prems"(1,2) room, of f stopAtRet u1 u2 rex]
    obtain c' n' x rf' where
      d: "decodeInstr fp f stopAtRet u1 u2 c n rex = Inr (c', n', x, rf')"
      and cnt: "count c' = count c + 1" and cap: "capacity c' = capacity c"
      by blast
    from decodeInstr_advances [OF d] have "n < n'" .
    with "1.prems"(3) cnt cap lt have "count c' + (nat mx - n') \<le> capacity c'" by simp
    from "1.IH" [OF True d refl refl refl "1.prems"(1,2) this]
    obtain c'' where "decodeLoop fp f mx stopAtRet u1 u2 c' n' x rf' = Inr c''" by blast
    with True d show ?thesis
      by (subst decodeLoop.simps) simp
  next
    case False
    then show ?thesis by (simp add: decodeLoop_stop)
  qed
qed


lemmas decode_defs = decodeFunc_def decodeLoop.simps decodeInstr_def scanPrefixes.simps read8_def
  word_le_nat_alt


text \<open>
  Claim C8, as amended.
  \<^item> At a byte where the decoder finds no opcode it knows (the byte after the REX
    prefixes of the instruction, if any), and with room in the buffer, it appends
    an \<^verbatim>\<open>IT_Invalid\<close> instruction with the address where the instruction began,
    moves on by exactly that one byte, and the loop goes on from the next byte.
  \<^item> With the budget used up (\<^verbatim>\<open>o >= max\<close>) the loop stops and returns the buffer.
  \<^item> Decoding returns whenever the buffer has room for \<^verbatim>\<open>max\<close> more instructions
    and the bytes are readable up to 6 bytes past the budget, the byte at the
    budget being no REX prefix.
  The claim says decoding never aborts; it does when the buffer is full, by
  \<^verbatim>\<open>assert(c->count < c->capacity)\<close> in \<^verbatim>\<open>nextInstr\<close>.
\<close>

theorem decodeFunc_invalid_and_budget:
  "(scanPrefixes fp n False rex = Inr (h, x, m) \<and> fp ! m \<noteq> 0xc3
      \<and> \<not> (0x50 \<le> fp ! m \<and> fp ! m \<le> 0x57) \<and> \<not> (0x58 \<le> fp ! m \<and> fp ! m \<le> 0x5F)
      \<and> fp ! m \<noteq> 0x89 \<and> fp ! m \<noteq> 0x8B \<and> fp ! m \<noteq> 0x01 \<and> count c < capacity c
      \<longrightarrow> decodeInstr fp f sar ua ub c n rex =
            Inr (c\<lparr>count := count c + 1,
                   instr := (instr c)(count c := (instr c (count c))\<lparr>addr := f + of_nat n,
                                                                     itype := IT_Invalid\<rparr>)\<rparr>,
                 m + 1, x, False)
          \<and> (int n < mx \<longrightarrow>
                decodeLoop fp f mx sar ua ub c n rex False =
                decodeLoop fp f mx sar ua ub
                  (c\<lparr>count := count c + 1,
                     instr := (instr c)(count c := (instr c (count c))\<lparr>addr := f + of_nat n,
                                                                       itype := IT_Invalid\<rparr>)\<rparr>)
                  (m + 1) x False))
   \<and> (\<not> int n < mx \<longrightarrow> decodeLoop fp f mx sar ua ub c n rex rf = Inr c)
   \<and> (nat mx + 6 < length fp \<and> \<not> (fp ! nat mx \<ge> 0x40 \<and> fp ! nat mx \<le> 0x4F)
        \<and> count c + nat mx \<le> capacity c
      \<longrightarrow> (\<exists>c'. decodeFunc c fp f mx sar ua ub = Inr c'))"
proof (intro conjI impI)
  assume a: "scanPrefixes fp n False rex = Inr (h, x, m) \<and> fp ! m \<noteq> 0xc3
      \<and> \<not> (0x50 \<le> fp ! m \<and> fp ! m \<le> 0x57) \<and> \<not> (0x58 \<le> fp ! m \<and> fp ! m \<le> 0x5F)
      \<and> fp ! m \<noteq> 0x89 \<and> fp ! m \<noteq> 0x8B \<and> fp ! m \<noteq> 0x01 \<and> count c < capacity c"
  then show d: "decodeInstr fp f sar ua ub c n rex =
            Inr (c\<lparr>count := count c + 1,
                   instr := (instr c)(count c := (instr c (count c))\<lparr>addr := f + of_nat n,
                                                                     itype := IT_Invalid\<rparr>)\<rparr>,
                 m + 1, x, False)"
    by (intro decodeInstr_unknown) simp_all
  assume "int n < mx"
  from decodeLoop_step [OF this d]
  show "decodeLoop fp f mx sar ua ub c n rex False =
                decodeLoop fp f mx sar ua ub
                  (c\<lparr>count := count c + 1,
                     instr := (instr c)(count c := (instr c (count c))\<lparr>addr := f + of_nat n,
                                                                       itype := IT_Invalid\<rparr>)\<rparr>)
                  (m + 1) x False" .
next
  assume "\<not> int n < mx"
  then show "decodeLoop fp f mx sar ua ub c n rex rf = Inr c"
    by (simp add: decodeLoop_stop)
next
  assume "nat mx + 6 < length fp \<and> \<not> (fp ! nat mx \<ge> 0x40 \<and> fp ! nat mx \<le> 0x4F)
        \<and> count c + nat mx \<le> capacity c"
  then show "\<exists>c'. decodeFunc c fp f mx sar ua ub = Inr c'"
    unfolding decodeFunc_def by (intro decodeLoop_total) simp_all
qed

theorem decodeFunc_invalid_and_budget_witness:
  "scanPrefixes [0x48, 0x06, 0xC3, 0, 0, 0, 0, 0, 0, 0] 0 False 0 = Inr (True, 8, 1)
   \<and> decodeInstr [0x48, 0x06, 0xC3, 0, 0, 0, 0, 0, 0, 0] 0x1000 True
        \<lparr>otype = OT_None, reg = 0, ireg = 0, val = 0, scale = 0\<rparr>
        \<lparr>otype = OT_None, reg = 0, ireg = 0, val = 0, scale = 0\<rparr>
        \<lparr>count = 0, capacity = 3,
         instr = (\<lambda>_. \<lparr>addr = 0, itype = IT_None,
                    dst = \<lparr>otype = OT_None, reg = 0, ireg = 0, val = 0, scale = 0\<rparr>,
                    src = \<lparr>otype = OT_None, reg = 0, ireg = 0, val = 0, scale = 0\<rparr>\<rparr>)\<rparr> 0 0
      = Inr (\<lparr>count = 1, capacity = 3,
         instr = (\<lambda>_. \<lparr>addr = 0, itype = IT_None,
                    dst = \<lparr>otype = OT_None, reg = 0, ireg = 0, val = 0, scale = 0\<rparr>,
                    src = \<lparr>otype = OT_None, reg = 0, ireg = 0, val = 0, scale = 0\<rparr>\<rparr>)
                  (0 := \<lparr>addr = 0x1000, itype = IT_Invalid,
                    dst = \<lparr>otype = OT_None, reg = 0, ireg = 0, val = 0, scale = 0\<rparr>,
                    src = \<lparr>otype = OT_None, reg = 0, ireg = 0, val = 0, scale = 0\<rparr>\<rparr>)\<rparr>,
             2, 8, False)
   \<and> decodeFunc
        \<lparr>count = 0, capacity = 3,
         instr = (\<lambda>_. \<lparr>addr = 0, itype = IT_None,
                    dst = \<lparr>otype = OT_None, reg = 0, ireg = 0, val = 0, scale = 0\<rparr>,
                    src = \<lparr>otype = OT_None, reg = 0, ireg = 0, val = 0, scale = 0\<rparr>\<rparr>)\<rparr>
        [0x48, 0x06, 0xC3, 0, 0, 0, 0, 0, 0, 0] 0x1000 3 True
        \<lparr>otype = OT_None, reg = 0, ireg = 0, val = 0, scale = 0\<rparr>
        \<lparr>otype = OT_None, reg = 0, ireg = 0, val = 0, scale = 0\<rparr>
      = Inr \<lparr>count = 2, capacity = 3,
         instr = (\<lambda>_. \<lparr>addr = 0, itype = IT_None,
                    dst = \<lparr>otype = OT_None, reg = 0, ireg = 0, val = 0, scale = 0\<rparr>,
                    src = \<lparr>otype = OT_None, reg = 0, ireg = 0, val = 0, scale = 0\<rparr>\<rparr>)
                  (0 := \<lparr>addr = 0x1000, itype = IT_Invalid,
                    dst = \<lparr>otype = OT_None, reg = 0, ireg = 0, val = 0, scale = 0\<rparr>,
                    src = \<lparr>otype = OT_None, reg = 0, ireg = 0, val = 0, scale = 0\<rparr>\<rparr>,
                   1 := \<lparr>addr = 0x1002, itype = IT_RET,
                    dst = \<lparr>otype = OT_None, reg = 0, ireg = 0, val = 0, scale = 0\<rparr>,
                    src = \<lparr>otype = OT_None, reg = 0, ireg = 0, val = 0, scale = 0\<rparr>\<rparr>)\<rparr>"
  using decodeFunc_invalid_and_budget
    [where fp = "[0x48, 0x06, 0xC3, 0, 0, 0, 0, 0, 0, 0]" and n = 0 and rex = 0 and h = True
       and x = 8 and m = 1 and f = "0x1000" and sar = True and mx = 3
       and ua = "\<lparr>otype = OT_None, reg = 0, ireg = 0, val = 0, scale = 0\<rparr>"
       and ub = "\<lparr>otype = OT_None, reg = 0, ireg = 0, val = 0, scale = 0\<rparr>"
       and c = "\<lparr>count = 0, capacity = 3,
         instr = (\<lambda>_. \<lparr>addr = 0, itype = IT_None,
                    dst = \<lparr>otype = OT_None, reg = 0, ireg = 0, val = 0, scale = 0\<rparr>,
                    src = \<lparr>otype = OT_None, reg = 0, ireg = 0, val = 0, scale = 0\<rparr>\<rparr>)\<rparr>"]
  by (simp add: decode_defs add_defs)


text \<open>
  Claim C8 as stated fails: with room for one instruction and a budget of two
  bytes, the second unknown byte aborts the decoder.
\<close>

theorem decodeFunc_full_buffer_counterexample:
  "decodeFunc
        \<lparr>count = 0, capacity = 1,
         instr = (\<lambda>_. \<lparr>addr = 0, itype = IT_None,
                    dst = \<lparr>otype = OT_None, reg = 0, ireg = 0, val = 0, scale = 0\<rparr>,
                    src = \<lparr>otype = OT_None, reg = 0, ireg = 0, val = 0, scale = 0\<rparr>\<rparr>)\<rparr>
        [0x06, 0x06, 0, 0, 0, 0, 0, 0, 0] 0x1000 2 True
        \<lparr>otype = OT_None, reg = 0, ireg = 0, val = 0, scale = 0\<rparr>
        \<lparr>otype = OT_None, reg = 0, ireg = 0, val = 0, scale = 0\<rparr>
      = Inl AssertFailed"
  by (simp add: decode_defs add_defs)

end
